theory Spec2Isabelle
  imports Complex_Main "HOL-Library.Word"
begin

section \<open>Shared vocabulary of the two programs\<close>

text \<open>
  The repository holds two Node.js programs: \<^verbatim>\<open>BalanceTxFilter/index.js\<close> (the scan) and
  \<^verbatim>\<open>SolanaCollector/main.js\<close> (the sweep). Both talk to a remote RPC node through
  \<^verbatim>\<open>@solana/web3.js\<close>. The node and the library are collaborators outside the repository:
  they are parameters of the model (state transformers on an arbitrary remote state
  \<open>'r\<close>), never fixed functions.

  JavaScript numbers are modelled exactly: integers as \<open>int\<close>, decimals as \<open>rat\<close>. The
  rounding of IEEE doubles is not modelled.
\<close>

text \<open>A thrown JavaScript \<^verbatim>\<open>Error\<close>: its class and its \<^verbatim>\<open>message\<close>. A
  \<^verbatim>\<open>SendTransactionError\<close> may carry the \<^verbatim>\<open>transaction\<close> it is about.\<close>

datatype error =
    Error (message: string)
  | SendTransactionError (message: string) "string option"

text \<open>\<^verbatim>\<open>s.includes(t)\<close>: \<open>t\<close> occurs in \<open>s\<close> as a contiguous substring.\<close>

fun str_includes :: "string \<Rightarrow> string \<Rightarrow> bool" where
  "str_includes [] t = (t = [])"
| "str_includes (c # cs) t = (take (length t) (c # cs) = t \<or> str_includes cs t)"

text \<open>What a program has written and waited for, in order, next to the state of the
  remote node.\<close>

record ('r, 'e) world =
  remote :: 'r
  trace :: "'e list"

definition emit :: "'e \<Rightarrow> ('r, 'e) world \<Rightarrow> ('r, 'e) world" where
  "emit e w = w\<lparr>trace := trace w @ [e]\<rparr>"

text \<open>An awaited call of the remote node: it changes the remote state only.\<close>

definition await :: "('r \<Rightarrow> 'x \<times> 'r) \<Rightarrow> ('r, 'e) world \<Rightarrow> 'x \<times> ('r, 'e) world" where
  "await op w = (case op (remote w) of (x, r') \<Rightarrow> (x, w\<lparr>remote := r'\<rparr>))"

text \<open>A public key, kept as its base-58 text.\<close>

datatype pubkey = PublicKey (toBase58: string)

section \<open>The scan: \<^verbatim>\<open>BalanceTxFilter/index.js\<close>\<close>

record walletInfo =
  address :: string
  balance :: rat
  transactionCount :: int

datatype scan_event =
    ConsoleWarn429 int             \<comment> \<open>\<^verbatim>\<open>console.warn\<close> of \<open>withRetry\<close>, with the delay in ms\<close>
  | SetTimeout int                 \<comment> \<open>an awaited \<^verbatim>\<open>setTimeout(res, delay)\<close>\<close>
  | TransactionLoggerInfo walletInfo
  | ErrorLoggerError string string \<comment> \<open>\<^verbatim>\<open>{address, error: error.message}\<close>\<close>
  | ConsoleError string string

subsection \<open>\<^verbatim>\<open>withRetry\<close>\<close>

text \<open>
  \<^verbatim>\<open>fn\<close> is a zero-argument async thunk: one invocation takes the remote state to a
  new one and either throws (\<open>Inl\<close>) or returns (\<open>Inr\<close>). The loop of lines 40-53 is the
  recursion below; \<open>attempt\<close> and \<open>currentDelay\<close> are its two local variables.
  \<open>retries\<close> is a count and is a \<open>nat\<close>.
\<close>

function withRetry_loop ::
  "('r \<Rightarrow> (error + 'a) \<times> 'r) \<Rightarrow> nat \<Rightarrow> nat \<Rightarrow> int \<Rightarrow> ('r, scan_event) world
     \<Rightarrow> (error + 'a) \<times> ('r, scan_event) world" where
  "withRetry_loop fn retries attempt currentDelay w =
     (if attempt < retries then
        (case await fn w of
           (Inr v, w') \<Rightarrow> (Inr v, w')
         | (Inl err, w') \<Rightarrow>
             if str_includes (message err) ''429'' then
               withRetry_loop fn retries (attempt + 1) (currentDelay * 2)
                 (emit (SetTimeout currentDelay) (emit (ConsoleWarn429 currentDelay) w'))
             else (Inl err, w'))
      else (Inl (Error ''Maximum retry attempts reached''), w))"
  by pat_completeness auto
termination
  by (relation "measure (\<lambda>(fn, retries, attempt, currentDelay, w). retries - attempt)") auto

definition withRetry ::
  "('r \<Rightarrow> (error + 'a) \<times> 'r) \<Rightarrow> nat \<Rightarrow> int \<Rightarrow> ('r, scan_event) world
     \<Rightarrow> (error + 'a) \<times> ('r, scan_event) world" where
  "withRetry fn retries initialDelay w = withRetry_loop fn retries 0 initialDelay w"

text \<open>The remote state after \<open>n\<close> invocations of \<open>fn\<close>, and the outcome of the next one.\<close>

fun invoked :: "('r \<Rightarrow> 'x \<times> 'r) \<Rightarrow> nat \<Rightarrow> 'r \<Rightarrow> 'r" where
  "invoked fn 0 r = r"
| "invoked fn (Suc n) r = snd (fn (invoked fn n r))"

definition outcome :: "('r \<Rightarrow> 'x \<times> 'r) \<Rightarrow> nat \<Rightarrow> 'r \<Rightarrow> 'x" where
  "outcome fn n r = fst (fn (invoked fn n r))"

text \<open>The first \<open>k\<close> invocations all throw an error whose message contains \<^verbatim>\<open>429\<close>.\<close>

definition rate_limited :: "error \<Rightarrow> bool" where
  "rate_limited err = str_includes (message err) ''429''"

definition fails_rate_limited :: "('r \<Rightarrow> (error + 'a) \<times> 'r) \<Rightarrow> nat \<Rightarrow> 'r \<Rightarrow> bool" where
  "fails_rate_limited fn k r =
     list_all (\<lambda>i. case outcome fn i r of Inl err \<Rightarrow> rate_limited err | Inr v \<Rightarrow> False)
       [0..<k]"

text \<open>The warnings and waits of \<open>k\<close> retries starting at delay \<open>d\<close>.\<close>

fun backoff :: "int \<Rightarrow> nat \<Rightarrow> scan_event list" where
  "backoff d 0 = []"
| "backoff d (Suc k) = ConsoleWarn429 d # SetTimeout d # backoff (d * 2) k"

definition waits :: "scan_event list \<Rightarrow> int list" where
  "waits es = concat (map (\<lambda>e. case e of SetTimeout d \<Rightarrow> [d] | _ \<Rightarrow> []) es)"


text \<open>A node that answers 429 to the first \<open>n\<close> calls and \<open>x\<close> from then on; its state
  counts the calls received.\<close>

definition flaky :: "nat \<Rightarrow> error + 'a \<Rightarrow> nat \<Rightarrow> (error + 'a) \<times> nat" where
  "flaky n x c = (if c < n then Inl (Error ''429 Too Many Requests'') else x, Suc c)"

subsection \<open>The collaborators\<close>

type_synonym byte = "8 word"

datatype keypair = Keypair (publicKey: pubkey) (secretKey: "byte list")

text \<open>\<^verbatim>\<open>SystemProgram.transfer({fromPubkey, toPubkey, lamports})\<close>.\<close>

record transfer =
  fromPubkey :: pubkey
  toPubkey :: pubkey
  lamports :: rat

text \<open>How the promise of \<^verbatim>\<open>connection.confirmTransaction\<close> settles: never, or some
  milliseconds after the call, fulfilled or rejected.\<close>

datatype 'a settlement = NeverSettles | SettlesAfter nat "error + 'a"

text \<open>
  The packages \<^verbatim>\<open>@solana/web3.js\<close> and \<^verbatim>\<open>bs58\<close>, and the node behind the connection.
  The constructors \<^verbatim>\<open>new PublicKey\<close> and \<^verbatim>\<open>Keypair.fromSecretKey\<close> and \<^verbatim>\<open>bs58.decode\<close>
  throw or return; every method of \<^verbatim>\<open>connection\<close> is a call of the node.
  \<open>systemProgramTransfer\<close> stands for \<^verbatim>\<open>new Transaction().add(SystemProgram.transfer(...))\<close>:
  the error the library throws on these parameters, if it throws.
  \<open>timer_first_on_tie\<close> is the order in which the runtime delivers a timer and a
  settlement that fall due in the same millisecond.
\<close>

record 'r libs =
  newPublicKey :: "string \<Rightarrow> error + pubkey"
  fromSecretKey :: "byte list \<Rightarrow> error + keypair"
  bs58_decode :: "string \<Rightarrow> error + byte list"
  getBalance :: "pubkey \<Rightarrow> 'r \<Rightarrow> (error + int) \<times> 'r"
  getSignaturesForAddress :: "pubkey \<Rightarrow> nat \<Rightarrow> 'r \<Rightarrow> (error + string list) \<times> 'r"
  getMinimumBalanceForRentExemption :: "nat \<Rightarrow> 'r \<Rightarrow> (error + int) \<times> 'r"
  systemProgramTransfer :: "transfer \<Rightarrow> 'r \<Rightarrow> error option \<times> 'r"
  sendTransaction :: "transfer \<Rightarrow> keypair \<Rightarrow> 'r \<Rightarrow> (error + string) \<times> 'r"
  confirmTransaction :: "string \<Rightarrow> 'r \<Rightarrow> unit settlement \<times> 'r"
  getTransaction :: "string \<Rightarrow> 'r \<Rightarrow> (error + string list) \<times> 'r"
  timer_first_on_tie :: bool

text \<open>A spy on the library and the node: the same answers, and a list of the calls
  received.\<close>

datatype rpc_call =
    GetBalance pubkey
  | GetSignaturesForAddress pubkey nat
  | GetMinimumBalanceForRentExemption nat
  | SystemProgramTransfer transfer
  | SendTransaction transfer
  | ConfirmTransaction string
  | GetTransaction string

definition recording ::
  "rpc_call \<Rightarrow> ('r \<Rightarrow> 'x \<times> 'r) \<Rightarrow> 'r \<times> rpc_call list \<Rightarrow> 'x \<times> 'r \<times> rpc_call list" where
  "recording c op = (\<lambda>(r, cs). case op r of (x, r') \<Rightarrow> (x, r', cs @ [c]))"

definition recorded :: "'r libs \<Rightarrow> ('r \<times> rpc_call list) libs" where
  "recorded node =
     \<lparr>newPublicKey = newPublicKey node,
      fromSecretKey = fromSecretKey node,
      bs58_decode = bs58_decode node,
      getBalance = (\<lambda>pk. recording (GetBalance pk) (getBalance node pk)),
      getSignaturesForAddress =
        (\<lambda>pk n. recording (GetSignaturesForAddress pk n) (getSignaturesForAddress node pk n)),
      getMinimumBalanceForRentExemption =
        (\<lambda>n. recording (GetMinimumBalanceForRentExemption n)
               (getMinimumBalanceForRentExemption node n)),
      systemProgramTransfer =
        (\<lambda>t. recording (SystemProgramTransfer t) (systemProgramTransfer node t)),
      sendTransaction = (\<lambda>t k. recording (SendTransaction t) (sendTransaction node t k)),
      confirmTransaction = (\<lambda>s. recording (ConfirmTransaction s) (confirmTransaction node s)),
      getTransaction = (\<lambda>s. recording (GetTransaction s) (getTransaction node s)),
      timer_first_on_tie = timer_first_on_tie node\<rparr>"

definition calls :: "('r \<times> rpc_call list, 'e) world \<Rightarrow> rpc_call list" where
  "calls w = snd (remote w)"

subsection \<open>\<^verbatim>\<open>checkWallet\<close>\<close>

record scan_config =
  min_balance_sol :: rat
  transaction_count_range :: "int \<times> int"
  max_concurrent_requests :: int

definition minBalanceLamports :: "scan_config \<Rightarrow> rat" where
  "minBalanceLamports cfg = min_balance_sol cfg * 1000000000"

definition txMin :: "scan_config \<Rightarrow> int" where
  "txMin cfg = fst (transaction_count_range cfg)"

definition txMax :: "scan_config \<Rightarrow> int" where
  "txMax cfg = snd (transaction_count_range cfg)"

text \<open>The \<^verbatim>\<open>catch\<close> block of lines 117-121.\<close>

definition checkWallet_catch ::
  "string \<Rightarrow> error \<Rightarrow> ('r, scan_event) world \<Rightarrow> walletInfo option \<times> ('r, scan_event) world" where
  "checkWallet_catch addr err w =
     (None, emit (ConsoleError addr (message err)) (emit (ErrorLoggerError addr (message err)) w))"

text \<open>The body of the \<^verbatim>\<open>try\<close> block, lines 95-116: \<open>Inl\<close> when it throws.\<close>

definition checkWallet_try ::
  "scan_config \<Rightarrow> 'r libs \<Rightarrow> string \<Rightarrow> ('r, scan_event) world
     \<Rightarrow> (error + walletInfo option) \<times> ('r, scan_event) world" where
  "checkWallet_try cfg node addr w =
     (case newPublicKey node addr of
        Inl err \<Rightarrow> (Inl err, w)
      | Inr pk \<Rightarrow>
          (case withRetry (getBalance node pk) 5 500 w of
             (Inl err, w1) \<Rightarrow> (Inl err, w1)
           | (Inr balanceLamports, w1) \<Rightarrow>
               if of_int balanceLamports < minBalanceLamports cfg then (Inr None, w1)
               else
                 (case withRetry (getSignaturesForAddress node pk 1000) 5 500 w1 of
                    (Inl err, w2) \<Rightarrow> (Inl err, w2)
                  | (Inr signatures, w2) \<Rightarrow>
                      let transactionCount = int (length signatures) in
                      if transactionCount < txMin cfg \<or> transactionCount > txMax cfg
                      then (Inr None, w2)
                      else
                        let walletInfo =
                          \<lparr>address = addr,
                           balance = of_int balanceLamports / 1000000000,
                           transactionCount = transactionCount\<rparr>
                        in (Inr (Some walletInfo),
                            emit (TransactionLoggerInfo walletInfo) w2))))"

definition checkWallet ::
  "scan_config \<Rightarrow> 'r libs \<Rightarrow> string \<Rightarrow> ('r, scan_event) world
     \<Rightarrow> walletInfo option \<times> ('r, scan_event) world" where
  "checkWallet cfg node addr w =
     (case checkWallet_try cfg node addr w of
        (Inr result, w') \<Rightarrow> (result, w')
      | (Inl err, w') \<Rightarrow> checkWallet_catch addr err w')"

subsection \<open>\<^verbatim>\<open>asyncPool\<close>\<close>

text \<open>
  The promises of one run of \<^verbatim>\<open>asyncPool\<close>. \<open>ret\<close> holds the promise \<^verbatim>\<open>p\<close> of every
  item started so far, in input order; \<open>executing\<close> holds the indices \<open>i\<close> whose
  \<^verbatim>\<open>e\<close> is in the array of that name; \<open>main\<close> says where the body of \<^verbatim>\<open>asyncPool\<close>
  is suspended, or how its own promise has settled.

  \<open>iteratorFn i item\<close> is the way the promise returned for the \<open>i\<close>-th item settles:
  rejected (\<open>Inl\<close>) or fulfilled (\<open>Inr\<close>). When it settles is up to the scheduler: each
  number of \<open>picks\<close> chooses which of the pending promises settles next, and the
  reactions to one settlement run to completion before the next one.
\<close>

datatype 'b promise = Pending | Fulfilled 'b | Rejected error

datatype 'b suspended = AwaitRace | AwaitAll | Settled "error + 'b list"

record 'b pool =
  ret :: "'b promise list"
  executing :: "nat list"
  main :: "'b suspended"

text \<open>\<^verbatim>\<open>Promise.all(ret)\<close> on the promises as they stand.\<close>

definition promise_all :: "'b promise list \<Rightarrow> 'b suspended" where
  "promise_all ps =
     (case [e. Rejected e \<leftarrow> ps] of
        e # _ \<Rightarrow> Settled (Inl e)
      | [] \<Rightarrow> if Pending \<in> set ps then AwaitAll else Settled (Inr [v. Fulfilled v \<leftarrow> ps]))"

text \<open>The \<^verbatim>\<open>for\<close> loop of lines 127-138, run until it suspends at
  \<^verbatim>\<open>await Promise.race(executing)\<close> or leaves the loop for \<^verbatim>\<open>Promise.all(ret)\<close>.\<close>

function for_loop :: "int \<Rightarrow> 'a list \<Rightarrow> 'b pool \<Rightarrow> 'b pool" where
  "for_loop poolLimit array st =
     (if length (ret st) < length array then
        let i = length (ret st);
            st = st\<lparr>ret := ret st @ [Pending]\<rparr>
        in if poolLimit \<le> int (length array) then
             let st = st\<lparr>executing := executing st @ [i]\<rparr>
             in if int (length (executing st)) \<ge> poolLimit
                then st\<lparr>main := AwaitRace\<rparr>
                else for_loop poolLimit array st
           else for_loop poolLimit array st
      else st\<lparr>main := promise_all (ret st)\<rparr>)"
  by pat_completeness auto
termination
  by (relation "measure (\<lambda>(poolLimit, array, st). length array - length (ret st))") auto

text \<open>The promise of item \<open>i\<close> settles. Fulfilled: the callback of \<^verbatim>\<open>e\<close> splices it out
  of \<open>executing\<close>, and the body resumes if it was waiting on the race. Rejected: \<^verbatim>\<open>e\<close>
  rejects with it, and so does the race or \<^verbatim>\<open>Promise.all\<close> the body is waiting on.\<close>

definition settle ::
  "(nat \<Rightarrow> 'a \<Rightarrow> error + 'b) \<Rightarrow> int \<Rightarrow> 'a list \<Rightarrow> nat \<Rightarrow> 'b pool \<Rightarrow> 'b pool" where
  "settle iteratorFn poolLimit array i st =
     (case iteratorFn i (array ! i) of
        Inr v \<Rightarrow>
          let st = st\<lparr>ret := (ret st)[i := Fulfilled v], executing := remove1 i (executing st)\<rparr>
          in (case main st of
                AwaitRace \<Rightarrow> for_loop poolLimit array st
              | AwaitAll \<Rightarrow> st\<lparr>main := promise_all (ret st)\<rparr>
              | Settled r \<Rightarrow> st)
      | Inl err \<Rightarrow>
          let st = st\<lparr>ret := (ret st)[i := Rejected err]\<rparr>
          in (case main st of
                Settled r \<Rightarrow> st
              | _ \<Rightarrow> st\<lparr>main := Settled (Inl err)\<rparr>))"

definition pending :: "'b pool \<Rightarrow> nat list" where
  "pending st = [i \<leftarrow> [0..<length (ret st)]. ret st ! i = Pending]"

fun run_pool ::
  "(nat \<Rightarrow> 'a \<Rightarrow> error + 'b) \<Rightarrow> int \<Rightarrow> 'a list \<Rightarrow> 'b pool \<Rightarrow> nat list
     \<Rightarrow> (error + 'b list) option" where
  "run_pool iteratorFn poolLimit array st [] =
     (case main st of Settled r \<Rightarrow> Some r | _ \<Rightarrow> None)"
| "run_pool iteratorFn poolLimit array st (k # picks) =
     (case main st of
        Settled r \<Rightarrow> Some r
      | _ \<Rightarrow>
        (case pending st of
           [] \<Rightarrow> None
         | ps \<Rightarrow> run_pool iteratorFn poolLimit array
                  (settle iteratorFn poolLimit array (ps ! (k mod length ps)) st) picks))"

text \<open>\<open>None\<close>: the promise of \<^verbatim>\<open>asyncPool\<close> has not settled when the picks run out.\<close>

definition asyncPool ::
  "int \<Rightarrow> 'a list \<Rightarrow> (nat \<Rightarrow> 'a \<Rightarrow> error + 'b) \<Rightarrow> nat list \<Rightarrow> (error + 'b list) option" where
  "asyncPool poolLimit array iteratorFn picks =
     run_pool iteratorFn poolLimit array
       (for_loop poolLimit array \<lparr>ret = [], executing = [], main = AwaitAll\<rparr>) picks"


text \<open>What the proofs about \<open>asyncPool\<close> keep true of a pool: every settled promise
  holds what \<open>iteratorFn\<close> says, and the body is suspended only while something is
  pending and nothing has been rejected.\<close>

definition consistent :: "(nat \<Rightarrow> 'a \<Rightarrow> error + 'b) \<Rightarrow> 'a list \<Rightarrow> 'b promise list \<Rightarrow> bool" where
  "consistent f xs ps \<longleftrightarrow>
     length ps \<le> length xs \<and>
     (\<forall>i < length ps. case ps ! i of
         Pending \<Rightarrow> True
       | Fulfilled v \<Rightarrow> f i (xs ! i) = Inr v
       | Rejected e \<Rightarrow> f i (xs ! i) = Inl e)"

definition no_rejected :: "'b promise list \<Rightarrow> bool" where
  "no_rejected ps \<longleftrightarrow> (\<forall>e. Rejected e \<notin> set ps)"

definition pool_inv :: "(nat \<Rightarrow> 'a \<Rightarrow> error + 'b) \<Rightarrow> 'a list \<Rightarrow> 'b pool \<Rightarrow> bool" where
  "pool_inv f xs st \<longleftrightarrow>
     consistent f xs (ret st) \<and>
     (case main st of
        AwaitRace \<Rightarrow> Pending \<in> set (ret st) \<and> no_rejected (ret st)
      | AwaitAll \<Rightarrow> Pending \<in> set (ret st) \<and> length (ret st) = length xs \<and> no_rejected (ret st)
      | Settled (Inr ys) \<Rightarrow> ret st = map Fulfilled ys \<and> length ys = length xs
      | Settled (Inl e) \<Rightarrow> (\<exists>i < length xs. f i (xs ! i) = Inl e))"

text \<open>The number of items whose promise has not settled yet.\<close>

definition todo :: "'a list \<Rightarrow> 'b pool \<Rightarrow> nat" where
  "todo xs st = length (filter (\<lambda>p. p = Pending) (ret st)) + (length xs - length (ret st))"

subsection \<open>The main body of the scan\<close>



section \<open>The sweep: \<^verbatim>\<open>SolanaCollector/main.js\<close>\<close>

subsection \<open>Strings\<close>

text \<open>Strings are byte strings here: of the white space \<^verbatim>\<open>trim\<close> and \<^verbatim>\<open>parseInt\<close> skip,
  only the ASCII characters are modelled.\<close>

definition is_space :: "char \<Rightarrow> bool" where
  "is_space c \<longleftrightarrow> c \<in> set [CHR '' '', CHR 0x09, CHR 0x0A, CHR 0x0B, CHR 0x0C, CHR 0x0D]"

definition trim :: "string \<Rightarrow> string" where
  "trim s = rev (dropWhile is_space (rev (dropWhile is_space s)))"

definition startsWith :: "string \<Rightarrow> string \<Rightarrow> bool" where
  "startsWith s p \<longleftrightarrow> take (length p) s = p"

definition endsWith :: "string \<Rightarrow> string \<Rightarrow> bool" where
  "endsWith s p \<longleftrightarrow> length p \<le> length s \<and> drop (length s - length p) s = p"

text \<open>\<^verbatim>\<open>s.split(',')\<close>: never empty, one more piece than there are commas.\<close>

fun split :: "char \<Rightarrow> string \<Rightarrow> string list" where
  "split c [] = [[]]"
| "split c (x # xs) =
     (if x = c then [] # split c xs
      else (case split c xs of [] \<Rightarrow> [[x]] | piece # pieces \<Rightarrow> (x # piece) # pieces))"

definition is_digit :: "char \<Rightarrow> bool" where
  "is_digit c \<longleftrightarrow> (48 :: nat) \<le> of_char c \<and> (of_char c :: nat) \<le> 57"

definition decimal :: "string \<Rightarrow> int" where
  "decimal ds = foldl (\<lambda>n c. 10 * n + (int (of_char c) - 48)) 0 ds"

text \<open>\<^verbatim>\<open>parseInt(s, 10)\<close>: leading white space, an optional sign, then the longest run of
  digits; \<open>None\<close> is \<^verbatim>\<open>NaN\<close>. The value is exact (a double is not beyond \<open>2^53\<close>).\<close>

definition parseInt :: "string \<Rightarrow> int option" where
  "parseInt s =
     (let s1 = dropWhile is_space s;
          (sign, s2) = (case s1 of
                          c # r \<Rightarrow> if c = CHR ''-'' then (-1, r)
                                   else if c = CHR ''+'' then (1, r) else (1, s1)
                        | [] \<Rightarrow> (1, s1));
          ds = takeWhile is_digit s2
      in if ds = [] then None else Some (sign * decimal ds))"

text \<open>One element of \<^verbatim>\<open>Uint8Array.from\<close>: \<^verbatim>\<open>NaN\<close> becomes 0, a number is taken modulo 256.\<close>

definition toUint8 :: "int option \<Rightarrow> byte" where
  "toUint8 x = (case x of None \<Rightarrow> 0 | Some n \<Rightarrow> word_of_int n)"

text \<open>A number inside a template literal: its decimal digits.\<close>

definition digit_char :: "nat \<Rightarrow> char" where
  "digit_char d = char_of (of_char CHR ''0'' + d)"

fun decimal_digits :: "nat \<Rightarrow> nat list" where
  "decimal_digits n = (if n < 10 then [n] else decimal_digits (n div 10) @ [n mod 10])"

definition string_of_nat :: "nat \<Rightarrow> string" where
  "string_of_nat n = map digit_char (decimal_digits n)"

subsection \<open>\<^verbatim>\<open>parsePrivateKey\<close> and \<^verbatim>\<open>maskAddress\<close>\<close>

text \<open>\<open>decode\<close> is \<^verbatim>\<open>bs58.decode\<close>, a function of the \<^verbatim>\<open>bs58\<close> package: it throws or
  returns bytes. \<^verbatim>\<open>line.slice(1, -1)\<close> is \<open>take (length line - 2) (drop 1 line)\<close>: a line
  that starts with \<^verbatim>\<open>[\<close> and ends with \<^verbatim>\<open>]\<close> has two characters at least.\<close>

definition parsePrivateKey :: "(string \<Rightarrow> error + byte list) \<Rightarrow> string \<Rightarrow> error + byte list" where
  "parsePrivateKey decode line0 =
     (let line = trim line0 in
      if startsWith line ''['' \<and> endsWith line '']'' then
        let arrayString = take (length line - 2) (drop 1 line);
            byteArray = map (\<lambda>num. parseInt (trim num)) (split CHR '','' arrayString)
        in Inr (map toUint8 byteArray)
      else
        (case decode line of
           Inr bytes \<Rightarrow> Inr bytes
         | Inl err \<Rightarrow> Inl (Error ''Invalid Base58 format'')))"

definition maskAddress :: "string \<Rightarrow> string" where
  "maskAddress addr =
     (if length addr \<le> 10 then addr
      else take 5 addr @ ''...'' @ drop (length addr - 5) addr)"

subsection \<open>\<^verbatim>\<open>confirmTransactionWithTimeout\<close>\<close>

text \<open>
  The promise built at lines 77-89 and its timer. Two things can be delivered to it:
  the timer fires, or the promise of \<^verbatim>\<open>connection.confirmTransaction\<close> settles. The
  promise keeps the first settlement; \<^verbatim>\<open>clearTimeout\<close> disarms a timer that has not fired,
  and a disarmed timer does not run its callback.
\<close>

datatype timer = Armed | Cleared | Fired

datatype 'a race_event = TimerFires | OperationSettles "error + 'a"

record 'a deferred =
  settled :: "(error + 'a) option"
  timeout :: timer

definition settle_once :: "error + 'a \<Rightarrow> 'a deferred \<Rightarrow> 'a deferred" where
  "settle_once x d = (case settled d of None \<Rightarrow> d\<lparr>settled := Some x\<rparr> | Some y \<Rightarrow> d)"

definition clearTimeout :: "'a deferred \<Rightarrow> 'a deferred" where
  "clearTimeout d = (if timeout d = Armed then d\<lparr>timeout := Cleared\<rparr> else d)"

definition not_confirmed :: "nat \<Rightarrow> error" where
  "not_confirmed timeoutSeconds =
     Error (''Transaction was not confirmed in '' @ string_of_nat timeoutSeconds @ '' seconds.'')"

fun deliver :: "nat \<Rightarrow> 'a deferred \<Rightarrow> 'a race_event \<Rightarrow> 'a deferred" where
  "deliver timeoutSeconds d TimerFires =
     (if timeout d = Armed
      then settle_once (Inl (not_confirmed timeoutSeconds)) (d\<lparr>timeout := Fired\<rparr>)
      else d)"
| "deliver timeoutSeconds d (OperationSettles x) = settle_once x (clearTimeout d)"

text \<open>The order of delivery: the timer is due \<open>timeoutSeconds * 1000\<close> ms after the call.\<close>

definition arrival :: "nat \<Rightarrow> bool \<Rightarrow> 'a settlement \<Rightarrow> 'a race_event list" where
  "arrival timeoutSeconds timer_first settlement =
     (case settlement of
        NeverSettles \<Rightarrow> [TimerFires]
      | SettlesAfter t x \<Rightarrow>
          if t < timeoutSeconds * 1000 \<or> (t = timeoutSeconds * 1000 \<and> \<not> timer_first)
          then [OperationSettles x, TimerFires]
          else [TimerFires, OperationSettles x])"

definition confirmTransactionWithTimeout ::
  "'r libs \<Rightarrow> string \<Rightarrow> nat \<Rightarrow> 'r \<Rightarrow> unit deferred \<times> 'r" where
  "confirmTransactionWithTimeout node signature timeoutSeconds r =
     (case confirmTransaction node signature r of
        (settlement, r') \<Rightarrow>
          (foldl (deliver timeoutSeconds) \<lparr>settled = None, timeout = Armed\<rparr>
             (arrival timeoutSeconds (timer_first_on_tie node) settlement), r'))"

subsection \<open>Configuration\<close>

text \<open>\<open>None\<close>: the key is absent from \<^verbatim>\<open>settings.toml\<close>. The timeout is a number of whole
  seconds.\<close>

record sweep_config =
  transaction_fee_sol :: "rat option"
  confirmation_timeout_seconds :: "nat option"

definition TRANSACTION_FEE_SOL :: "sweep_config \<Rightarrow> rat" where
  "TRANSACTION_FEE_SOL config =
     (case transaction_fee_sol config of
        None \<Rightarrow> 1 / 1000
      | Some fee \<Rightarrow> if fee = 0 then 1 / 1000 else fee)"

definition CONFIRMATION_TIMEOUT_SECONDS :: "sweep_config \<Rightarrow> nat" where
  "CONFIRMATION_TIMEOUT_SECONDS config =
     (case confirmation_timeout_seconds config of
        None \<Rightarrow> 60
      | Some t \<Rightarrow> if t = 0 then 60 else t)"

text \<open>Modelled from the spec: \<^verbatim>\<open>LAMPORTS_PER_SOL\<close>, a constant of \<^verbatim>\<open>@solana/web3.js\<close> that
  the repository imports and does not define; the spec has 1e9 lamports to the unit.\<close>

definition LAMPORTS_PER_SOL :: rat where
  "LAMPORTS_PER_SOL = 1000000000"

definition transactionFeeLamports :: "sweep_config \<Rightarrow> rat" where
  "transactionFeeLamports config = TRANSACTION_FEE_SOL config * LAMPORTS_PER_SOL"


subsection \<open>The loop over the wallets\<close>

text \<open>What the sweep writes: the stream, and the message with the values it is built
  from (amounts in SOL are printed with \<^verbatim>\<open>toFixed(6)\<close>).\<close>

datatype stream = Console_log | Console_error | TransactionLogger_info | ErrorLogger_error

datatype message =
    AtLeastTwoWallets
  | RecipientWallet string
  | RecipientKeyParsingError string
  | RecipientKeyFailed
  | ProcessingWallet nat string
  | InvalidPrivateKeyFormat nat
  | WalletBalance nat rat
  | InsufficientBalance nat string
  | Sent rat string string string
  | ActionsCompleted nat
  | TransferError nat string "string list"
  | TransferErrorSeeLog nat
  | Finished nat

type_synonym sweep_event = "stream \<times> message"

text \<open>Lines 118-126: the key of one sender.\<close>

definition parseKeypair :: "'r libs \<Rightarrow> string \<Rightarrow> error + keypair" where
  "parseKeypair node line =
     (case parsePrivateKey (bs58_decode node) line of
        Inl err \<Rightarrow> Inl err
      | Inr secret \<Rightarrow> fromSecretKey node secret)"

datatype outcome = Skipped | Transferred

text \<open>The body of the \<^verbatim>\<open>try\<close> block of lines 128-162: \<open>Inl\<close> when it throws. An
  \<^verbatim>\<open>await\<close> of a promise that is not settled would not return; the promise of
  \<open>confirmTransactionWithTimeout\<close> always is.\<close>

definition transfer_try ::
  "sweep_config \<Rightarrow> 'r libs \<Rightarrow> keypair \<Rightarrow> nat \<Rightarrow> keypair \<Rightarrow> nat \<Rightarrow> ('r, sweep_event) world
     \<Rightarrow> (error + outcome) \<times> ('r, sweep_event) world" where
  "transfer_try config node recipientKeypair i senderKeypair actionCount w =
     (let senderPublicKey = publicKey senderKeypair;
          recipientPublicKey = publicKey recipientKeypair
      in
      (case await (getBalance node senderPublicKey) w of
         (Inl err, w1) \<Rightarrow> (Inl err, w1)
       | (Inr senderBalanceLamports, w1) \<Rightarrow>
      (case await (getMinimumBalanceForRentExemption node 0) w1 of
         (Inl err, w2) \<Rightarrow> (Inl err, w2)
       | (Inr minimumBalance, w2) \<Rightarrow>
      (let amountToSend =
             of_int senderBalanceLamports - of_int minimumBalance
               - transactionFeeLamports config;
           w3 = emit (Console_log,
                      WalletBalance i (of_int senderBalanceLamports / LAMPORTS_PER_SOL)) w2
       in
       if amountToSend \<le> 0 then
         (Inr Skipped,
          emit (TransactionLogger_info,
                InsufficientBalance i (maskAddress (toBase58 senderPublicKey))) w3)
       else
      (let transaction =
             \<lparr>fromPubkey = senderPublicKey, toPubkey = recipientPublicKey,
              lamports = amountToSend\<rparr>
       in
      (case await (systemProgramTransfer node transaction) w3 of
         (Some err, w3') \<Rightarrow> (Inl err, w3')
       | (None, w3') \<Rightarrow>
      (case await (sendTransaction node transaction senderKeypair) w3' of
         (Inl err, w4) \<Rightarrow> (Inl err, w4)
       | (Inr signature, w4) \<Rightarrow>
      (case await (confirmTransactionWithTimeout node signature
                     (CONFIRMATION_TIMEOUT_SECONDS config)) w4 of
         (d, w5) \<Rightarrow>
      (case settled d of
         None \<Rightarrow> (Inl (not_confirmed (CONFIRMATION_TIMEOUT_SECONDS config)), w5)
       | Some (Inl err) \<Rightarrow> (Inl err, w5)
       | Some (Inr u) \<Rightarrow>
           (Inr Transferred,
            emit (Console_log, ActionsCompleted (actionCount + 1))
              (emit (TransactionLogger_info,
                     Sent (amountToSend / LAMPORTS_PER_SOL)
                       (maskAddress (toBase58 senderPublicKey))
                       (maskAddress (toBase58 recipientPublicKey)) signature) w5)))))))))))"

text \<open>The \<^verbatim>\<open>catch\<close> block of lines 163-173.\<close>

definition transfer_catch ::
  "'r libs \<Rightarrow> nat \<Rightarrow> error \<Rightarrow> ('r, sweep_event) world \<Rightarrow> ('r, sweep_event) world" where
  "transfer_catch node i err w =
     (case (case err of
              SendTransactionError m (Some tx) \<Rightarrow>
                if tx \<noteq> [] then
                  (case await (getTransaction node tx) w of
                     (Inr logMessages, w') \<Rightarrow> (logMessages, w')
                   | (Inl e, w') \<Rightarrow> ([], w'))
                else ([], w)
            | _ \<Rightarrow> ([], w)) of
        (logs, w') \<Rightarrow>
          emit (Console_error, TransferErrorSeeLog i)
            (emit (ErrorLogger_error, TransferError i (message err) logs) w'))"

text \<open>One turn of the \<^verbatim>\<open>for\<close> loop of lines 115-174, on the world and \<open>actionCount\<close>.\<close>

definition processWallet ::
  "sweep_config \<Rightarrow> 'r libs \<Rightarrow> keypair \<Rightarrow> nat \<Rightarrow> string \<Rightarrow> ('r, sweep_event) world \<times> nat
     \<Rightarrow> ('r, sweep_event) world \<times> nat" where
  "processWallet config node recipientKeypair i line = (\<lambda>(w, actionCount).
     case parseKeypair node line of
       Inl err \<Rightarrow>
         (emit (Console_error, InvalidPrivateKeyFormat i)
            (emit (ErrorLogger_error, InvalidPrivateKeyFormat i) w), actionCount)
     | Inr senderKeypair \<Rightarrow>
         let w0 = emit (Console_log,
                        ProcessingWallet i (maskAddress (toBase58 (publicKey senderKeypair)))) w
         in (case transfer_try config node recipientKeypair i senderKeypair actionCount w0 of
               (Inr Skipped, w') \<Rightarrow> (w', actionCount)
             | (Inr Transferred, w') \<Rightarrow> (w', actionCount + 1)
             | (Inl err, w') \<Rightarrow> (transfer_catch node i err w', actionCount)))"

fun sweep_loop ::
  "sweep_config \<Rightarrow> 'r libs \<Rightarrow> keypair \<Rightarrow> nat \<Rightarrow> string list \<Rightarrow> ('r, sweep_event) world \<times> nat
     \<Rightarrow> ('r, sweep_event) world \<times> nat" where
  "sweep_loop config node recipientKeypair i [] st = st"
| "sweep_loop config node recipientKeypair i (line # rest) st =
     sweep_loop config node recipientKeypair (i + 1) rest
       (processWallet config node recipientKeypair i line st)"

text \<open>Lines 92-181 on the lines \<^verbatim>\<open>readPrivateKeys\<close> returns: the exit code of
  \<^verbatim>\<open>process.exit\<close>, or \<open>None\<close> when the program runs to its end.\<close>

definition sweep ::
  "sweep_config \<Rightarrow> 'r libs \<Rightarrow> string list \<Rightarrow> ('r, sweep_event) world
     \<Rightarrow> nat option \<times> ('r, sweep_event) world" where
  "sweep config node privateKeys w =
     (if length privateKeys < 2 then (Some 1, emit (Console_error, AtLeastTwoWallets) w)
      else
        case parseKeypair node (privateKeys ! 0) of
          Inl err \<Rightarrow>
            (Some 1, emit (Console_error, RecipientKeyFailed)
                       (emit (ErrorLogger_error, RecipientKeyParsingError (message err)) w))
        | Inr recipientKeypair \<Rightarrow>
            let w0 = emit (Console_log,
                       RecipientWallet (maskAddress (toBase58 (publicKey recipientKeypair)))) w
            in (case sweep_loop config node recipientKeypair 1 (tl privateKeys) (w0, 0) of
                  (w', actionCount) \<Rightarrow> (None, emit (Console_log, Finished actionCount) w')))"

subsection \<open>A reference \<^verbatim>\<open>bs58.decode\<close> and a node to run the programs on\<close>

definition base58_alphabet :: string where
  "base58_alphabet = ''123456789ABCDEFGHJKLMNPQRSTUVWXYZabcdefghijkmnopqrstuvwxyz''"

fun index_of :: "'a \<Rightarrow> 'a list \<Rightarrow> nat" where
  "index_of c [] = 0"
| "index_of c (x # xs) = (if x = c then 0 else Suc (index_of c xs))"

fun bytes_of_nat :: "nat \<Rightarrow> byte list" where
  "bytes_of_nat n = (if n = 0 then [] else bytes_of_nat (n div 256) @ [of_nat (n mod 256)])"

definition base58_decode :: "string \<Rightarrow> error + byte list" where
  "base58_decode s =
     (if \<exists>c \<in> set s. c \<notin> set base58_alphabet then Inl (Error ''Non-base58 character'')
      else Inr (replicate (length (takeWhile (\<lambda>c. c = CHR ''1'') s)) 0
                @ bytes_of_nat (foldl (\<lambda>n c. 58 * n + index_of c base58_alphabet) 0 s)))"

text \<open>A node whose state counts the calls it has received. The wallet \<^verbatim>\<open>poor\<close> holds
  1000 lamports, the wallet \<^verbatim>\<open>busy\<close> meets a rate limit on every call, every other wallet
  holds 5 SOL.\<close>

definition demo :: "nat libs" where
  "demo =
     \<lparr>newPublicKey = (\<lambda>s. if s = [] then Inl (Error ''Invalid public key input'')
                           else Inr (PublicKey s)),
      fromSecretKey = (\<lambda>bytes. if length bytes = 64
                                then Inr (Keypair (PublicKey (if hd bytes = 0 then ''poor''
                                            else if hd bytes = 1 then ''busy'' else ''rich'')) bytes)
                                else Inl (Error ''bad secret key size'')),
      bs58_decode = base58_decode,
      getBalance = (\<lambda>pk c. (if toBase58 pk = ''poor'' then Inr 1000
                             else if toBase58 pk = ''busy'' then
                               (if c = 0 then Inl (Error ''429 Too Many Requests'')
                                else Inr 5000000000)
                             else Inr 5000000000, Suc c)),
      getSignaturesForAddress = (\<lambda>pk n c. (Inr (replicate 3 ''sig''), Suc c)),
      getMinimumBalanceForRentExemption = (\<lambda>n c. (Inr 890880, Suc c)),
      systemProgramTransfer = (\<lambda>t c. (None, c)),
      sendTransaction = (\<lambda>t k c. (Inr ''5Sig'', Suc c)),
      confirmTransaction = (\<lambda>s c. (SettlesAfter 400 (Inr ()), Suc c)),
      getTransaction = (\<lambda>s c. (Inr [], Suc c)),
      timer_first_on_tie = True\<rparr>"

text \<open>A key file line: a byte-array literal of 64 entries, the first one \<open>b\<close>.\<close>

definition key_line :: "nat \<Rightarrow> string" where
  "key_line b = ''['' @ string_of_nat b @ concat (replicate 63 '',0'') @ '']''"

text \<open>Configurations and a starting world for the runs below.\<close>

definition default_config :: sweep_config where
  "default_config = \<lparr>transaction_fee_sol = None, confirmation_timeout_seconds = None\<rparr>"

definition fractional_fee_config :: sweep_config where
  "fractional_fee_config =
     \<lparr>transaction_fee_sol = Some (15 / 10000000000), confirmation_timeout_seconds = None\<rparr>"

definition demo_scan_config :: scan_config where
  "demo_scan_config =
     \<lparr>min_balance_sol = 1, transaction_count_range = (1, 5), max_concurrent_requests = 2\<rparr>"

definition start :: "(nat \<times> rpc_call list, 'e) world" where
  "start = \<lparr>remote = (0, []), trace = []\<rparr>"

text \<open>The key pair \<open>demo\<close> makes of \<open>key_line b\<close>, and nodes that fail at one call each.\<close>

definition demo_keypair :: "string \<Rightarrow> nat \<Rightarrow> keypair" where
  "demo_keypair name b = Keypair (PublicKey name) (of_nat b # replicate 63 0)"

definition no_reserve_node :: "nat libs" where
  "no_reserve_node =
     demo\<lparr>getMinimumBalanceForRentExemption := (\<lambda>n c. (Inl (Error ''fetch failed''), Suc c))\<rparr>"

definition rejecting_node :: "nat libs" where
  "rejecting_node =
     demo\<lparr>sendTransaction :=
            (\<lambda>t k c. (Inl (SendTransactionError ''Transaction simulation failed'' (Some ''tx1'')),
                       Suc c))\<rparr>"

definition slow_node :: "nat libs" where
  "slow_node = demo\<lparr>confirmTransaction := (\<lambda>s c. (SettlesAfter 60001 (Inr ()), Suc c))\<rparr>"

definition silent_node :: "nat libs" where
  "silent_node = demo\<lparr>confirmTransaction := (\<lambda>s c. (NeverSettles, Suc c))\<rparr>"

section \<open>Verified properties\<close>

subsection \<open>\<^verbatim>\<open>withRetry\<close>\<close>

declare withRetry_loop.simps [simp del]

lemma invoked_Suc_front: "invoked fn (Suc n) r = invoked fn n (snd (fn r))"
  by (induction n) simp_all

lemma fails_rate_limited_Suc:
  "fails_rate_limited fn (Suc k) r \<longleftrightarrow>
     (case fst (fn r) of Inl err \<Rightarrow> rate_limited err | Inr v \<Rightarrow> False) \<and>
     fails_rate_limited fn k (snd (fn r))"
proof -
  have "[0..<Suc k] = 0 # map Suc [0..<k]"
    by (simp add: upt_conv_Cons map_Suc_upt del: upt_Suc)
  then show ?thesis
    by (simp add: fails_rate_limited_def outcome_def list.pred_map comp_def invoked_Suc_front
          del: upt_Suc invoked.simps(2))
qed

lemma withRetry_loop_skip:
  "fails_rate_limited fn k (remote w) \<Longrightarrow> attempt + k \<le> retries \<Longrightarrow>
   withRetry_loop fn retries attempt d w =
   withRetry_loop fn retries (attempt + k) (d * 2 ^ k)
     (w\<lparr>remote := invoked fn k (remote w), trace := trace w @ backoff d k\<rparr>)"
proof (induction k arbitrary: attempt d w)
  case 0
  then show ?case by simp
next
  case (Suc k)
  obtain x r' where fn: "fn (remote w) = (x, r')" by (cases "fn (remote w)")
  from Suc.prems(1) fn obtain err where x: "x = Inl err" and rl: "rate_limited err"
    and rest: "fails_rate_limited fn k r'"
    by (auto simp: fails_rate_limited_Suc split: sum.splits)
  let ?w' = "emit (SetTimeout d) (emit (ConsoleWarn429 d) (w\<lparr>remote := r'\<rparr>))"
  have step: "withRetry_loop fn retries attempt d w = withRetry_loop fn retries (attempt + 1) (d * 2) ?w'"
    using Suc.prems(2) fn x rl
    by (subst withRetry_loop.simps) (simp add: await_def rate_limited_def)
  have "withRetry_loop fn retries (attempt + 1) (d * 2) ?w' =
     withRetry_loop fn retries (attempt + 1 + k) (d * 2 * 2 ^ k)
       (?w'\<lparr>remote := invoked fn k (remote ?w'), trace := trace ?w' @ backoff (d * 2) k\<rparr>)"
    using rest Suc.prems(2) by (intro Suc.IH) (simp_all add: emit_def)
  with step show ?case using fn
    by (simp add: emit_def mult.assoc invoked_Suc_front del: invoked.simps(2))
qed


lemma waits_append: "waits (xs @ ys) = waits xs @ waits ys"
  by (simp add: waits_def)

lemma waits_backoff: "waits (backoff d k) = map (\<lambda>i. d * 2 ^ i) [0..<k]"
proof (induction k arbitrary: d)
  case 0
  then show ?case by (simp add: waits_def)
next
  case (Suc k)
  have "[0..<Suc k] = 0 # map Suc [0..<k]"
    by (simp add: upt_conv_Cons map_Suc_upt del: upt_Suc)
  moreover have "waits (backoff d (Suc k)) = d # waits (backoff (d * 2) k)"
    by (simp add: waits_def)
  ultimately show ?case
    using Suc.IH [of "d * 2"] by (simp add: comp_def mult.assoc del: upt_Suc)
qed

lemma withRetry_after_failures:
  assumes "fails_rate_limited fn k (remote w)" and "k \<le> retries"
  shows "withRetry fn retries d w =
     withRetry_loop fn retries k (d * 2 ^ k)
       (w\<lparr>remote := invoked fn k (remote w), trace := trace w @ backoff d k\<rparr>)"
  using withRetry_loop_skip [of fn k w 0 retries d] assms by (simp add: withRetry_def)

lemma fails_rate_limited_mono:
  "fails_rate_limited fn k r \<Longrightarrow> j \<le> k \<Longrightarrow> fails_rate_limited fn j r"
  by (auto simp: fails_rate_limited_def list_all_iff)

text \<open>
  Claim C2. Let the first \<open>k\<close> invocations of the operation fail with a rate-limited
  error. If \<open>k < retries\<close> and invocation \<open>k\<close> succeeds with \<open>v\<close>, \<open>withRetry\<close> returns
  \<open>v\<close> after \<open>k + 1\<close> invocations and \<open>k\<close> retries. If \<open>retries \<le> k\<close>, it throws
  \<^verbatim>\<open>Maximum retry attempts reached\<close> after exactly \<open>retries\<close> invocations. If \<open>k < retries\<close>
  and invocation \<open>k\<close> fails with an error that is not rate-limited, that error is
  thrown at once, with no wait and no further invocation. The waits of \<open>k\<close> retries are
  \<open>initialDelay\<close>, \<open>2 * initialDelay\<close>, \<open>4 * initialDelay\<close>, ...
\<close>

theorem withRetry_contract:
  assumes "fails_rate_limited fn k (remote w)"
  shows "(k < retries \<and> outcome fn k (remote w) = Inr v \<longrightarrow>
            withRetry fn retries initialDelay w =
              (Inr v, w\<lparr>remote := invoked fn (Suc k) (remote w),
                         trace := trace w @ backoff initialDelay k\<rparr>))
       \<and> (retries \<le> k \<longrightarrow>
            withRetry fn retries initialDelay w =
              (Inl (Error ''Maximum retry attempts reached''),
               w\<lparr>remote := invoked fn retries (remote w),
                  trace := trace w @ backoff initialDelay retries\<rparr>))
       \<and> (k < retries \<and> outcome fn k (remote w) = Inl err \<and> \<not> rate_limited err \<longrightarrow>
            withRetry fn retries initialDelay w =
              (Inl err, w\<lparr>remote := invoked fn (Suc k) (remote w),
                           trace := trace w @ backoff initialDelay k\<rparr>))
       \<and> waits (backoff initialDelay k) = map (\<lambda>i. initialDelay * 2 ^ i) [0..<k]"
proof (intro conjI impI)
  let ?w = "w\<lparr>remote := invoked fn k (remote w), trace := trace w @ backoff initialDelay k\<rparr>"
  { assume "k < retries \<and> outcome fn k (remote w) = Inr v"
    then obtain r' where k: "k < retries" and out: "fn (invoked fn k (remote w)) = (Inr v, r')"
      by (cases "fn (invoked fn k (remote w))") (simp add: outcome_def)
    then have r': "invoked fn (Suc k) (remote w) = r'" by simp
    have "withRetry fn retries initialDelay w = withRetry_loop fn retries k (initialDelay * 2 ^ k) ?w"
      using assms k by (intro withRetry_after_failures) simp_all
    also have "\<dots> = (Inr v, w\<lparr>remote := invoked fn (Suc k) (remote w),
                         trace := trace w @ backoff initialDelay k\<rparr>)"
      using k out unfolding r' by (subst withRetry_loop.simps) (simp add: await_def)
    finally show "withRetry fn retries initialDelay w =
              (Inr v, w\<lparr>remote := invoked fn (Suc k) (remote w),
                         trace := trace w @ backoff initialDelay k\<rparr>)" . }
  { assume "k < retries \<and> outcome fn k (remote w) = Inl err \<and> \<not> rate_limited err"
    then obtain r' where k: "k < retries" and nrl: "\<not> rate_limited err"
      and out: "fn (invoked fn k (remote w)) = (Inl err, r')"
      by (cases "fn (invoked fn k (remote w))") (simp add: outcome_def)
    then have r': "invoked fn (Suc k) (remote w) = r'" by simp
    have "withRetry fn retries initialDelay w = withRetry_loop fn retries k (initialDelay * 2 ^ k) ?w"
      using assms k by (intro withRetry_after_failures) simp_all
    also have "\<dots> = (Inl err, w\<lparr>remote := invoked fn (Suc k) (remote w),
                         trace := trace w @ backoff initialDelay k\<rparr>)"
      using k out nrl unfolding r' by (subst withRetry_loop.simps) (simp add: await_def rate_limited_def)
    finally show "withRetry fn retries initialDelay w =
              (Inl err, w\<lparr>remote := invoked fn (Suc k) (remote w),
                         trace := trace w @ backoff initialDelay k\<rparr>)" . }
  { assume le: "retries \<le> k"
    let ?v = "w\<lparr>remote := invoked fn retries (remote w),
                  trace := trace w @ backoff initialDelay retries\<rparr>"
    have "fails_rate_limited fn retries (remote w)"
      using assms le by (rule fails_rate_limited_mono)
    then have "withRetry fn retries initialDelay w =
        withRetry_loop fn retries retries (initialDelay * 2 ^ retries) ?v"
      by (intro withRetry_after_failures) simp_all
    also have "\<dots> = (Inl (Error ''Maximum retry attempts reached''), ?v)"
      by (subst withRetry_loop.simps) simp
    finally show "withRetry fn retries initialDelay w =
        (Inl (Error ''Maximum retry attempts reached''), ?v)" . }
  show "waits (backoff initialDelay k) = map (\<lambda>i. initialDelay * 2 ^ i) [0..<k]"
    by (rule waits_backoff)
qed

theorem withRetry_contract_witness:
  "withRetry (flaky 3 (Inr (7::int))) 5 500 \<lparr>remote = 0, trace = []\<rparr> =
     (Inr 7, \<lparr>remote = 4, trace = [ConsoleWarn429 500, SetTimeout 500, ConsoleWarn429 1000, SetTimeout 1000, ConsoleWarn429 2000, SetTimeout 2000]\<rparr>)
   \<and> withRetry (flaky 9 (Inr (7::int))) 2 500 \<lparr>remote = 0, trace = []\<rparr> =
     (Inl (Error ''Maximum retry attempts reached''),
      \<lparr>remote = 2, trace = [ConsoleWarn429 500, SetTimeout 500, ConsoleWarn429 1000, SetTimeout 1000]\<rparr>)
   \<and> withRetry (flaky 1 (Inl (Error ''failed to fetch'') :: error + int)) 5 500 \<lparr>remote = 0, trace = []\<rparr> =
     (Inl (Error ''failed to fetch''),
      \<lparr>remote = 2, trace = [ConsoleWarn429 500, SetTimeout 500]\<rparr>)"
proof -
  have a: "fails_rate_limited (flaky 3 (Inr (7::int))) 3 (remote \<lparr>remote = 0, trace = []::scan_event list\<rparr>)"
    by (simp add: fails_rate_limited_def outcome_def flaky_def rate_limited_def upt_rec numeral_3_eq_3)
  have b: "fails_rate_limited (flaky 9 (Inr (7::int))) 2 (remote \<lparr>remote = 0, trace = []::scan_event list\<rparr>)"
    by (simp add: fails_rate_limited_def outcome_def flaky_def rate_limited_def upt_rec numeral_2_eq_2)
  have c: "fails_rate_limited (flaky 1 (Inl (Error ''failed to fetch'') :: error + int)) 1 (remote \<lparr>remote = 0, trace = []::scan_event list\<rparr>)"
    by (simp add: fails_rate_limited_def outcome_def flaky_def rate_limited_def upt_rec)
  show ?thesis
    using withRetry_contract [OF a, where retries = 5 and v = 7 and initialDelay = 500]
      withRetry_contract [OF b, where retries = 2 and initialDelay = 500]
      withRetry_contract [OF c, where retries = 5 and err = "Error ''failed to fetch''"
        and initialDelay = 500]
    by (simp add: outcome_def flaky_def rate_limited_def numeral_3_eq_3 numeral_2_eq_2)
qed

subsection \<open>\<^verbatim>\<open>asyncPool\<close>\<close>

declare for_loop.simps [simp del]

lemma for_loop_shape:
  "length (ret st) \<le> length xs \<Longrightarrow>
   \<exists>n. ret (for_loop L xs st) = ret st @ replicate n Pending
     \<and> length (ret (for_loop L xs st)) \<le> length xs
     \<and> ((main (for_loop L xs st) = AwaitRace \<and> 0 < n)
        \<or> (main (for_loop L xs st) = promise_all (ret (for_loop L xs st))
            \<and> length (ret (for_loop L xs st)) = length xs))"
proof (induction L xs st rule: for_loop.induct)
  case (1 L xs st)
  let ?st1 = "st\<lparr>ret := ret st @ [Pending]\<rparr>"
  let ?st2 = "?st1\<lparr>executing := executing ?st1 @ [length (ret st)]\<rparr>"
  consider (fin) "\<not> length (ret st) < length xs"
    | (untracked) "length (ret st) < length xs" "\<not> L \<le> int (length xs)"
    | (race) "length (ret st) < length xs" "L \<le> int (length xs)"
        "int (length (executing ?st2)) \<ge> L"
    | (more) "length (ret st) < length xs" "L \<le> int (length xs)"
        "\<not> int (length (executing ?st2)) \<ge> L"
    by blast
  then show ?case
  proof cases
    case fin
    then have "for_loop L xs st = st\<lparr>main := promise_all (ret st)\<rparr>"
      by (subst for_loop.simps) simp
    with fin "1.prems" show ?thesis by (intro exI [of _ 0]) simp
  next
    case untracked
    then have eq: "for_loop L xs st = for_loop L xs ?st1"
      by (subst for_loop.simps) (simp add: Let_def)
    from untracked have "length (ret ?st1) \<le> length xs" by simp
    from "1.IH"(2) [OF untracked(1) refl refl untracked(2) this]
    obtain n where "ret (for_loop L xs ?st1) = ret ?st1 @ replicate n Pending
     \<and> length (ret (for_loop L xs ?st1)) \<le> length xs
     \<and> ((main (for_loop L xs ?st1) = AwaitRace \<and> 0 < n)
        \<or> (main (for_loop L xs ?st1) = promise_all (ret (for_loop L xs ?st1))
            \<and> length (ret (for_loop L xs ?st1)) = length xs))" by blast
    then show ?thesis unfolding eq
      by (intro exI [of _ "Suc n"]) (auto simp: replicate_app_Cons_same)
  next
    case race
    then have "for_loop L xs st = ?st2\<lparr>main := AwaitRace\<rparr>"
      by (subst for_loop.simps) (simp add: Let_def)
    with race show ?thesis by (intro exI [of _ 1]) simp
  next
    case more
    then have eq: "for_loop L xs st = for_loop L xs ?st2"
      by (subst for_loop.simps) (simp add: Let_def)
    from more have "length (ret ?st2) \<le> length xs" by simp
    from "1.IH"(1) [OF more(1) refl refl more(2) refl more(3) this]
    obtain n where "ret (for_loop L xs ?st2) = ret ?st2 @ replicate n Pending
     \<and> length (ret (for_loop L xs ?st2)) \<le> length xs
     \<and> ((main (for_loop L xs ?st2) = AwaitRace \<and> 0 < n)
        \<or> (main (for_loop L xs ?st2) = promise_all (ret (for_loop L xs ?st2))
            \<and> length (ret (for_loop L xs ?st2)) = length xs))" by blast
    then show ?thesis unfolding eq
      by (intro exI [of _ "Suc n"]) (auto simp: replicate_app_Cons_same)
  qed
qed


lemma rejected_filter_empty: "no_rejected ps \<Longrightarrow> [e. Rejected e \<leftarrow> ps] = []"
  by (induction ps) (auto simp: no_rejected_def split: promise.splits)

lemma all_fulfilled: "no_rejected ps \<Longrightarrow> Pending \<notin> set ps \<Longrightarrow> ps = map Fulfilled [v. Fulfilled v \<leftarrow> ps]"
  by (induction ps) (auto simp: no_rejected_def split: promise.splits)

lemma promise_all_no_rejected:
  "no_rejected ps \<Longrightarrow>
   promise_all ps = (if Pending \<in> set ps then AwaitAll else Settled (Inr [v. Fulfilled v \<leftarrow> ps]))"
  by (simp add: promise_all_def rejected_filter_empty)

lemma consistent_append_pending:
  "consistent f xs ps \<Longrightarrow> length ps + n \<le> length xs \<Longrightarrow> consistent f xs (ps @ replicate n Pending)"
  by (auto simp: consistent_def nth_append)

lemma no_rejected_append_pending: "no_rejected ps \<Longrightarrow> no_rejected (ps @ replicate n Pending)"
  by (auto simp: no_rejected_def)

lemma for_loop_inv:
  assumes "consistent f xs (ret st)" and "no_rejected (ret st)"
  shows "pool_inv f xs (for_loop L xs st)"
proof -
  from assms(1) have len: "length (ret st) \<le> length xs" by (simp add: consistent_def)
  from for_loop_shape [OF len, of L] obtain n where
    r: "ret (for_loop L xs st) = ret st @ replicate n Pending"
    and l: "length (ret (for_loop L xs st)) \<le> length xs"
    and m: "(main (for_loop L xs st) = AwaitRace \<and> 0 < n)
        \<or> (main (for_loop L xs st) = promise_all (ret (for_loop L xs st))
            \<and> length (ret (for_loop L xs st)) = length xs)" by blast
  have c: "consistent f xs (ret (for_loop L xs st))"
    unfolding r using assms(1) l r by (intro consistent_append_pending) simp_all
  have nr: "no_rejected (ret (for_loop L xs st))"
    unfolding r using assms(2) by (rule no_rejected_append_pending)
  from m show ?thesis
  proof
    assume "main (for_loop L xs st) = AwaitRace \<and> 0 < n"
    with c nr r show ?thesis by (auto simp: pool_inv_def)
  next
    assume a: "main (for_loop L xs st) = promise_all (ret (for_loop L xs st))
            \<and> length (ret (for_loop L xs st)) = length xs"
    show ?thesis
    proof (cases "Pending \<in> set (ret (for_loop L xs st))")
      case True
      with a c nr show ?thesis by (simp add: pool_inv_def promise_all_no_rejected)
    next
      case False
      from all_fulfilled [OF nr False] a
      have "length [v. Fulfilled v \<leftarrow> ret (for_loop L xs st)] = length xs"
        by (metis length_map)
      with False a c nr all_fulfilled [OF nr False] show ?thesis
        by (simp add: pool_inv_def promise_all_no_rejected)
    qed
  qed
qed

lemma for_loop_todo:
  assumes "length (ret st) \<le> length xs"
  shows "todo xs (for_loop L xs st) = todo xs st"
proof -
  from for_loop_shape [OF assms, of L] obtain n where
    "ret (for_loop L xs st) = ret st @ replicate n Pending"
    "length (ret (for_loop L xs st)) \<le> length xs" by blast
  then show ?thesis using assms by (simp add: todo_def)
qed


lemma consistent_update:
  assumes "consistent f xs ps" and "i < length ps"
    and "case p of Pending \<Rightarrow> True | Fulfilled v \<Rightarrow> f i (xs ! i) = Inr v
           | Rejected e \<Rightarrow> f i (xs ! i) = Inl e"
  shows "consistent f xs (ps[i := p])"
  using assms by (auto simp: consistent_def nth_list_update)

lemma no_rejected_update: "no_rejected ps \<Longrightarrow> no_rejected (ps[i := Fulfilled v])"
  by (auto simp: no_rejected_def dest: set_update_subset_insert [THEN subsetD])

lemma pending_count_update:
  assumes "i < length ps" and "ps ! i = Pending" and "p \<noteq> Pending"
  shows "Suc (length (filter (\<lambda>q. q = Pending) (ps[i := p]))) = length (filter (\<lambda>q. q = Pending) ps)"
  using assms
proof (induction ps arbitrary: i)
  case Nil
  then show ?case by simp
next
  case (Cons q ps)
  then show ?case by (cases i) auto
qed

lemma settle_inv:
  assumes inv: "pool_inv f xs st" and un: "main st = AwaitRace \<or> main st = AwaitAll"
    and i: "i < length (ret st)" "ret st ! i = Pending"
  shows "pool_inv f xs (settle f L xs i st)"
proof (cases "f i (xs ! i)")
  case (Inl err)
  from inv have c: "consistent f xs (ret st)" by (simp add: pool_inv_def)
  then have "i < length xs" using i by (simp add: consistent_def)
  moreover have "consistent f xs ((ret st)[i := Rejected err])"
    using c i(1) Inl by (intro consistent_update) simp_all
  ultimately show ?thesis using un Inl
    by (auto simp: settle_def pool_inv_def)
next
  case (Inr v)
  let ?st = "st\<lparr>ret := (ret st)[i := Fulfilled v], executing := remove1 i (executing st)\<rparr>"
  from inv un have c: "consistent f xs (ret st)" and nr: "no_rejected (ret st)"
    by (auto simp: pool_inv_def)
  have c': "consistent f xs (ret ?st)"
    using c i(1) Inr by (simp add: consistent_update)
  have nr': "no_rejected (ret ?st)"
    using nr by (simp add: no_rejected_update)
  from un show ?thesis
  proof
    assume "main st = AwaitRace"
    then have "settle f L xs i st = for_loop L xs ?st"
      using Inr by (simp add: settle_def)
    then show ?thesis using for_loop_inv [OF c' nr'] by simp
  next
    assume m: "main st = AwaitAll"
    then have eq: "settle f L xs i st = ?st\<lparr>main := promise_all (ret ?st)\<rparr>"
      using Inr by (simp add: settle_def)
    from inv m have len: "length (ret ?st) = length xs" by (simp add: pool_inv_def)
    show ?thesis
    proof (cases "Pending \<in> set (ret ?st)")
      case True
      with c' nr' len show ?thesis unfolding eq
        by (simp add: pool_inv_def promise_all_no_rejected)
    next
      case False
      from all_fulfilled [OF nr' False] len
      have "length [v. Fulfilled v \<leftarrow> ret ?st] = length xs"
        by (metis length_map)
      with False c' nr' all_fulfilled [OF nr' False] show ?thesis unfolding eq
        by (simp add: pool_inv_def promise_all_no_rejected)
    qed
  qed
qed

lemma settle_todo:
  assumes inv: "pool_inv f xs st" and un: "main st = AwaitRace \<or> main st = AwaitAll"
    and i: "i < length (ret st)" "ret st ! i = Pending"
  shows "Suc (todo xs (settle f L xs i st)) = todo xs st"
proof (cases "f i (xs ! i)")
  case (Inl err)
  then show ?thesis using un i
    by (auto simp: settle_def todo_def pending_count_update)
next
  case (Inr v)
  let ?st = "st\<lparr>ret := (ret st)[i := Fulfilled v], executing := remove1 i (executing st)\<rparr>"
  from inv have len: "length (ret ?st) \<le> length xs" by (simp add: pool_inv_def consistent_def)
  have t: "Suc (todo xs ?st) = todo xs st"
    using i by (simp add: todo_def pending_count_update)
  from un show ?thesis
  proof
    assume "main st = AwaitRace"
    then have "settle f L xs i st = for_loop L xs ?st"
      using Inr by (simp add: settle_def)
    then show ?thesis using for_loop_todo [OF len, of L] t by simp
  next
    assume "main st = AwaitAll"
    then have "settle f L xs i st = ?st\<lparr>main := promise_all (ret ?st)\<rparr>"
      using Inr by (simp add: settle_def)
    then show ?thesis using t by (simp add: todo_def)
  qed
qed

lemma pending_set: "set (pending st) = {i. i < length (ret st) \<and> ret st ! i = Pending}"
  by (auto simp: pending_def)

lemma pending_nonempty: "Pending \<in> set (ret st) \<Longrightarrow> pending st \<noteq> []"
proof -
  assume "Pending \<in> set (ret st)"
  then obtain i where "i < length (ret st)" "ret st ! i = Pending"
    by (auto simp: in_set_conv_nth)
  then have "i \<in> set (pending st)" by (simp add: pending_set)
  then show ?thesis by auto
qed

lemma pick_pending:
  assumes "pending st \<noteq> []"
  shows "pending st ! (k mod length (pending st)) < length (ret st)
       \<and> ret st ! (pending st ! (k mod length (pending st))) = Pending"
proof -
  have "pending st ! (k mod length (pending st)) \<in> set (pending st)"
    using assms by (intro nth_mem) simp
  then show ?thesis by (simp add: pending_set)
qed

lemma unsettled_cases: "(\<forall>r. main st \<noteq> Settled r) \<longleftrightarrow> main st = AwaitRace \<or> main st = AwaitAll"
  by (cases "main st") auto

lemma run_pool_settled: "main st = Settled r \<Longrightarrow> run_pool f L xs st picks = Some r"
  by (cases picks) simp_all

lemma run_pool_step:
  assumes "main st = AwaitRace \<or> main st = AwaitAll" and "pending st \<noteq> []"
  shows "run_pool f L xs st (k # picks) =
         run_pool f L xs (settle f L xs (pending st ! (k mod length (pending st))) st) picks"
  using assms by (cases "pending st") auto

lemma run_pool_inv:
  "pool_inv f xs st \<Longrightarrow> run_pool f L xs st picks = Some r \<Longrightarrow>
   (case r of
      Inr ys \<Rightarrow> length ys = length xs \<and> (\<forall>i < length xs. f i (xs ! i) = Inr (ys ! i))
    | Inl e \<Rightarrow> (\<exists>i < length xs. f i (xs ! i) = Inl e))"
proof (induction picks arbitrary: st)
  case Nil
  then show ?case
    by (auto simp: pool_inv_def consistent_def split: suspended.splits sum.splits)
next
  case (Cons k picks)
  show ?case
  proof (cases "main st")
    case (Settled r')
    with Cons.prems show ?thesis
      by (auto simp: pool_inv_def consistent_def split: sum.splits)
  next
    case AwaitRace
    with Cons.prems(1) have ne: "pending st \<noteq> []" by (simp add: pool_inv_def pending_nonempty)
    have "run_pool f L xs (settle f L xs (pending st ! (k mod length (pending st))) st) picks = Some r"
      using run_pool_step [of st, OF _ ne, of f L xs k picks] AwaitRace Cons.prems(2)
      by (simp del: run_pool.simps)
    moreover have "pool_inv f xs (settle f L xs (pending st ! (k mod length (pending st))) st)"
      using Cons.prems(1) AwaitRace pick_pending [OF ne] by (intro settle_inv) simp_all
    ultimately show ?thesis by (rule Cons.IH [rotated])
  next
    case AwaitAll
    with Cons.prems(1) have ne: "pending st \<noteq> []" by (simp add: pool_inv_def pending_nonempty)
    have "run_pool f L xs (settle f L xs (pending st ! (k mod length (pending st))) st) picks = Some r"
      using run_pool_step [of st, OF _ ne, of f L xs k picks] AwaitAll Cons.prems(2)
      by (simp del: run_pool.simps)
    moreover have "pool_inv f xs (settle f L xs (pending st ! (k mod length (pending st))) st)"
      using Cons.prems(1) AwaitAll pick_pending [OF ne] by (intro settle_inv) simp_all
    ultimately show ?thesis by (rule Cons.IH [rotated])
  qed
qed

lemma todo_zero_settled:
  assumes "pool_inv f xs st" and "todo xs st = 0"
  shows "\<exists>r. main st = Settled r"
proof -
  from assms(2) have "Pending \<notin> set (ret st)"
    by (auto simp: todo_def filter_empty_conv)
  with assms(1) show ?thesis by (cases "main st") (auto simp: pool_inv_def)
qed

lemma run_pool_total:
  "pool_inv f xs st \<Longrightarrow> todo xs st \<le> length picks \<Longrightarrow> \<exists>r. run_pool f L xs st picks = Some r"
proof (induction picks arbitrary: st)
  case Nil
  then obtain r where "main st = Settled r" using todo_zero_settled by fastforce
  then show ?case by simp
next
  case (Cons k picks)
  show ?case
  proof (cases "\<exists>r. main st = Settled r")
    case True
    then show ?thesis by (auto simp: run_pool_settled)
  next
    case False
    then have un: "main st = AwaitRace \<or> main st = AwaitAll" by (cases "main st") auto
    with Cons.prems(1) have ne: "pending st \<noteq> []" by (auto simp: pool_inv_def pending_nonempty)
    let ?st = "settle f L xs (pending st ! (k mod length (pending st))) st"
    have "pool_inv f xs ?st"
      using Cons.prems(1) un pick_pending [OF ne] by (intro settle_inv) simp_all
    moreover have "Suc (todo xs ?st) = todo xs st"
      using Cons.prems(1) un pick_pending [OF ne] by (intro settle_todo) simp_all
    then have "todo xs ?st \<le> length picks" using Cons.prems(2) by simp
    ultimately have "\<exists>r. run_pool f L xs ?st picks = Some r" by (rule Cons.IH)
    then show ?thesis using run_pool_step [OF un ne, of f L xs k picks]
      by (simp del: run_pool.simps)
  qed
qed

lemma initial_inv:
  "pool_inv f xs (for_loop L xs \<lparr>ret = [], executing = [], main = AwaitAll\<rparr>)"
  by (rule for_loop_inv) (simp_all add: consistent_def no_rejected_def)

lemma initial_todo:
  "todo xs (for_loop L xs \<lparr>ret = [], executing = [], main = AwaitAll\<rparr>) = length xs"
  by (simp add: for_loop_todo) (simp add: todo_def)

lemma asyncPool_result:
  "asyncPool L xs f picks = Some r \<Longrightarrow>
   (case r of
      Inr ys \<Rightarrow> length ys = length xs \<and> (\<forall>i < length xs. f i (xs ! i) = Inr (ys ! i))
    | Inl e \<Rightarrow> (\<exists>i < length xs. f i (xs ! i) = Inl e))"
  unfolding asyncPool_def by (rule run_pool_inv [OF initial_inv])

lemma asyncPool_settles:
  "length xs \<le> length picks \<Longrightarrow> \<exists>r. asyncPool L xs f picks = Some r"
  unfolding asyncPool_def by (rule run_pool_total [OF initial_inv]) (simp add: initial_todo)

text \<open>
  Claim C3. Whatever the limit and the order in which the promises settle: when
  \<open>asyncPool\<close> returns a sequence, it is as long as the input and its \<open>i\<close>-th element is
  the result of the task on the \<open>i\<close>-th input; and when no task rejects, it does return one
  as soon as every promise has settled.
\<close>

theorem asyncPool_order:
  "(asyncPool poolLimit array iteratorFn picks = Some (Inr results) \<longrightarrow>
      length results = length array \<and>
      (\<forall>i < length array. iteratorFn i (array ! i) = Inr (results ! i)))
   \<and> ((\<forall>i < length array. \<exists>v. iteratorFn i (array ! i) = Inr v) \<and> length array \<le> length picks \<longrightarrow>
      (\<exists>results. asyncPool poolLimit array iteratorFn picks = Some (Inr results)))"
proof -
  have order: "length results = length array \<and>
      (\<forall>i < length array. iteratorFn i (array ! i) = Inr (results ! i))"
    if "asyncPool poolLimit array iteratorFn picks = Some (Inr results)"
    using asyncPool_result [OF that] by simp
  have total: "\<exists>results. asyncPool poolLimit array iteratorFn picks = Some (Inr results)"
    if a: "(\<forall>i < length array. \<exists>v. iteratorFn i (array ! i) = Inr v) \<and> length array \<le> length picks"
  proof -
    from a obtain r where r: "asyncPool poolLimit array iteratorFn picks = Some r"
      using asyncPool_settles by blast
    show ?thesis
    proof (cases r)
      case (Inl e)
      with asyncPool_result [OF r] a show ?thesis by auto
    next
      case (Inr ys)
      with r show ?thesis by blast
    qed
  qed
  from order total show ?thesis by blast
qed

theorem asyncPool_order_witness:
  "asyncPool 2 [10, 20, 30 :: nat] (\<lambda>i x. Inr (x + i) :: error + nat) [1, 0, 0]
     = Some (Inr [10, 21, 32])
   \<and> length [10, 21, 32 :: nat] = length [10, 20, 30 :: nat]
   \<and> (\<exists>results. asyncPool 2 [10, 20, 30 :: nat] (\<lambda>i x. Inr (x + i) :: error + nat) [2, 1, 0]
         = Some (Inr results))"
proof -
  have e: "asyncPool 2 [10, 20, 30 :: nat] (\<lambda>i x. Inr (x + i) :: error + nat) [1, 0, 0]
     = Some (Inr [10, 21, 32])"
    by code_simp
  show ?thesis
    using e asyncPool_order [of 2 "[10, 20, 30 :: nat]" "\<lambda>i x. Inr (x + i) :: error + nat"
        "[1, 0, 0]" "[10, 21, 32]"]
      asyncPool_order [of 2 "[10, 20, 30 :: nat]" "\<lambda>i x. Inr (x + i) :: error + nat"
        "[2, 1, 0]"]
    by simp
qed

subsection \<open>The scan\<close>

lemma calls_emit: "calls (emit e w) = calls w"
  by (simp add: calls_def emit_def)

lemma await_recording:
  "await (recording c op) w = (x, w') \<Longrightarrow> calls w' = calls w @ [c] \<and> trace w' = trace w"
  by (cases "remote w"; cases "op (fst (remote w))")
     (auto simp: await_def recording_def calls_def split: prod.splits)

lemma withRetry_loop_calls:
  "withRetry_loop (recording c op) retries attempt d w = (x, w') \<Longrightarrow>
   \<exists>m. calls w' = calls w @ replicate m c"
proof (induction "retries - attempt" arbitrary: attempt d w)
  case 0
  then have "w' = w" by (subst (asm) withRetry_loop.simps) simp
  then show ?case by (intro exI [of _ 0]) simp
next
  case (Suc n)
  then have lt: "attempt < retries" by simp
  obtain y w0 where aw: "await (recording c op) w = (y, w0)"
    by (cases "await (recording c op) w")
  from await_recording [OF aw] have c0: "calls w0 = calls w @ [c]" by simp
  show ?case
  proof (cases "\<exists>err. y = Inl err \<and> str_includes (message err) ''429''")
    case True
    then obtain err where y: "y = Inl err" and rl: "str_includes (message err) ''429''" by blast
    let ?w1 = "emit (SetTimeout d) (emit (ConsoleWarn429 d) w0)"
    from Suc.prems lt aw y rl
    have "withRetry_loop (recording c op) retries (attempt + 1) (d * 2) ?w1 = (x, w')"
      by (subst (asm) withRetry_loop.simps) simp
    moreover from Suc.hyps(2) have "n = retries - (attempt + 1)" by simp
    ultimately obtain m where "calls w' = calls ?w1 @ replicate m c"
      using Suc.hyps(1) by blast
    then have "calls w' = calls w @ replicate (Suc m) c"
      by (simp add: calls_emit c0 replicate_app_Cons_same)
    then show ?thesis by blast
  next
    case False
    with Suc.prems lt aw have "w' = w0"
      by (subst (asm) withRetry_loop.simps) (auto split: sum.splits if_splits)
    with c0 show ?thesis by (intro exI [of _ 1]) simp
  qed
qed

lemma withRetry_calls:
  "withRetry (recording c op) retries d w = (x, w') \<Longrightarrow> \<exists>m. calls w' = calls w @ replicate m c"
  unfolding withRetry_def by (rule withRetry_loop_calls)


text \<open>
  Claim C6. When the balance query returns less than the configured minimum,
  \<open>checkWallet\<close> returns \<^verbatim>\<open>null\<close> in the world the balance query left: the node has received
  \<^verbatim>\<open>getBalance\<close> calls only, and no \<^verbatim>\<open>getSignaturesForAddress\<close>.
\<close>

theorem checkWallet_short_circuit:
  assumes "newPublicKey node addr = Inr pk"
    and "withRetry (getBalance (recorded node) pk) 5 500 w = (Inr balanceLamports, w')"
    and "of_int balanceLamports < minBalanceLamports cfg"
  shows "checkWallet cfg (recorded node) addr w = (None, w')
       \<and> (\<exists>m. calls w' = calls w @ replicate m (GetBalance pk))
       \<and> (\<forall>p n. GetSignaturesForAddress p n \<notin> set (drop (length (calls w)) (calls w')))"
proof -
  have r: "checkWallet cfg (recorded node) addr w = (None, w')"
    using assms by (simp add: checkWallet_def checkWallet_try_def recorded_def)
  from assms(2) obtain m where m: "calls w' = calls w @ replicate m (GetBalance pk)"
    using withRetry_calls [of "GetBalance pk" "getBalance node pk" 5 500 w] 
    by (auto simp: recorded_def)
  then have "\<forall>p n. GetSignaturesForAddress p n \<notin> set (drop (length (calls w)) (calls w'))"
    by simp
  with r m show ?thesis by blast
qed






lemma asyncPool_rejecting_task:
  assumes "j < length xs" and "f j (xs ! j) = Inl e" and "length xs \<le> length picks"
  shows "\<exists>e'. asyncPool L xs f picks = Some (Inl e')"
proof -
  from asyncPool_settles [OF assms(3)] obtain r where r: "asyncPool L xs f picks = Some r"
    by blast
  with asyncPool_result [OF r] assms(1,2) show ?thesis by (cases r) auto
qed

subsection \<open>The sweep\<close>

lemma await_recorded:
  "op r = (x, r') \<Longrightarrow>
   await (recording c op) \<lparr>remote = (r, cs), trace = tr\<rparr> = (x, \<lparr>remote = (r', cs @ [c]), trace = tr\<rparr>)"
  by (simp add: await_def recording_def)

lemma await_known:
  "op r = (x, r') \<Longrightarrow> await op \<lparr>remote = r, trace = tr\<rparr> = (x, \<lparr>remote = r', trace = tr\<rparr>)"
  by (simp add: await_def)

lemma recorded_simps:
  "getBalance (recorded node) pk = recording (GetBalance pk) (getBalance node pk)"
  "getMinimumBalanceForRentExemption (recorded node) n =
     recording (GetMinimumBalanceForRentExemption n) (getMinimumBalanceForRentExemption node n)"
  "systemProgramTransfer (recorded node) t =
     recording (SystemProgramTransfer t) (systemProgramTransfer node t)"
  "sendTransaction (recorded node) t k = recording (SendTransaction t) (sendTransaction node t k)"
  "confirmTransaction (recorded node) s = recording (ConfirmTransaction s) (confirmTransaction node s)"
  "getTransaction (recorded node) s = recording (GetTransaction s) (getTransaction node s)"
  "timer_first_on_tie (recorded node) = timer_first_on_tie node"
  "newPublicKey (recorded node) = newPublicKey node"
  "fromSecretKey (recorded node) = fromSecretKey node"
  "bs58_decode (recorded node) = bs58_decode node"
  "getSignaturesForAddress (recorded node) pk n =
     recording (GetSignaturesForAddress pk n) (getSignaturesForAddress node pk n)"
  by (simp_all add: recorded_def)

lemma parseKeypair_recorded: "parseKeypair (recorded node) line = parseKeypair node line"
  by (simp add: parseKeypair_def recorded_simps split: sum.splits)


text \<open>
  Claim C8. When \<^verbatim>\<open>confirmTransaction\<close> settles before the timer is due, the promise settles
  the same way and the timer is cleared. When it settles later or never, the promise is
  rejected with \<^verbatim>\<open>Transaction was not confirmed in N seconds.\<close>, \<open>N\<close> the timeout.
\<close>

theorem confirmTransactionWithTimeout_race:
  "(confirmTransaction node signature r = (SettlesAfter t x, r') \<and> t < timeoutSeconds * 1000 \<longrightarrow>
      confirmTransactionWithTimeout node signature timeoutSeconds r =
        (\<lparr>settled = Some x, timeout = Cleared\<rparr>, r'))
   \<and> (confirmTransaction node signature r = (NeverSettles, r')
        \<or> confirmTransaction node signature r = (SettlesAfter t x, r') \<and> timeoutSeconds * 1000 < t \<longrightarrow>
      confirmTransactionWithTimeout node signature timeoutSeconds r =
        (\<lparr>settled = Some (Inl (Error (''Transaction was not confirmed in ''
                                      @ string_of_nat timeoutSeconds @ '' seconds.''))),
          timeout = Fired\<rparr>, r'))"
  by (auto simp: confirmTransactionWithTimeout_def arrival_def settle_once_def clearTimeout_def
      not_confirmed_def)


text \<open>The promise of \<open>confirmTransactionWithTimeout\<close> always settles: the branch of
  \<open>transfer_try\<close> for an unsettled promise is never taken.\<close>

lemma confirmTransactionWithTimeout_settles:
  "settled (fst (confirmTransactionWithTimeout node signature timeoutSeconds r)) \<noteq> None"
  by (auto simp: confirmTransactionWithTimeout_def arrival_def settle_once_def clearTimeout_def
      split: prod.splits settlement.splits)


lemma transfer_catch_logs:
  "\<exists>logs r'. transfer_catch node i err w =
       emit (Console_error, TransferErrorSeeLog i)
         (emit (ErrorLogger_error, TransferError i (message err) logs) (w\<lparr>remote := r'\<rparr>))"
proof -
  have plain: ?thesis
    if "transfer_catch node i err w =
       emit (Console_error, TransferErrorSeeLog i)
         (emit (ErrorLogger_error, TransferError i (message err) []) w)"
    using that by (intro exI [of _ "[]"] exI [of _ "remote w"]) simp
  show ?thesis
  proof (cases err)
    case (Error m)
    then show ?thesis by (intro plain) (simp add: transfer_catch_def)
  next
    case (SendTransactionError m tx)
    show ?thesis
    proof (cases "tx = None \<or> tx = Some []")
      case True
      with SendTransactionError show ?thesis
        by (intro plain) (auto simp: transfer_catch_def)
    next
      case False
      then obtain t where t: "tx = Some t" "t \<noteq> []" by auto
      obtain y r' where g: "getTransaction node t (remote w) = (y, r')"
        by (cases "getTransaction node t (remote w)")
      show ?thesis
        using SendTransactionError t g
        by (cases y) (auto simp: transfer_catch_def await_def)
    qed
  qed
qed

text \<open>
  Claim C1, as amended. The sweep calls \<^verbatim>\<open>getBalance\<close>,
  \<^verbatim>\<open>getMinimumBalanceForRentExemption\<close> and \<^verbatim>\<open>sendTransaction\<close> directly, once each: when one
  of them throws, for a rate limit or anything else, no call is repeated, the error goes to
  the \<^verbatim>\<open>catch\<close> block of the wallet, which logs it as a transfer error, and the loop goes
  on with \<open>actionCount\<close> unchanged.
\<close>

theorem sweep_first_failure_surfaces:
  assumes "parseKeypair node line = Inr senderKeypair"
  shows "(getBalance node (publicKey senderKeypair) r = (Inl err, ra) \<longrightarrow>
           processWallet config (recorded node) recipientKeypair i line
             (\<lparr>remote = (r, cs), trace = tr\<rparr>, actionCount) =
           (transfer_catch (recorded node) i err
              \<lparr>remote = (ra, cs @ [GetBalance (publicKey senderKeypair)]),
               trace = tr @ [(Console_log, ProcessingWallet i
                               (maskAddress (toBase58 (publicKey senderKeypair))))]\<rparr>,
            actionCount))
       \<and> (getBalance node (publicKey senderKeypair) r = (Inr senderBalanceLamports, ra)
          \<and> getMinimumBalanceForRentExemption node 0 ra = (Inl err, rb) \<longrightarrow>
           processWallet config (recorded node) recipientKeypair i line
             (\<lparr>remote = (r, cs), trace = tr\<rparr>, actionCount) =
           (transfer_catch (recorded node) i err
              \<lparr>remote = (rb, cs @ [GetBalance (publicKey senderKeypair),
                                    GetMinimumBalanceForRentExemption 0]),
               trace = tr @ [(Console_log, ProcessingWallet i
                               (maskAddress (toBase58 (publicKey senderKeypair))))]\<rparr>,
            actionCount))
       \<and> (getBalance node (publicKey senderKeypair) r = (Inr senderBalanceLamports, ra)
          \<and> getMinimumBalanceForRentExemption node 0 ra = (Inr minimumBalance, rb)
          \<and> 0 < of_int senderBalanceLamports - of_int minimumBalance
                  - transactionFeeLamports config
          \<and> transaction = \<lparr>fromPubkey = publicKey senderKeypair,
                            toPubkey = publicKey recipientKeypair,
                            lamports = of_int senderBalanceLamports - of_int minimumBalance
                                         - transactionFeeLamports config\<rparr>
          \<and> systemProgramTransfer node transaction rb = (None, rc)
          \<and> sendTransaction node transaction senderKeypair rc = (Inl err, rd) \<longrightarrow>
           processWallet config (recorded node) recipientKeypair i line
             (\<lparr>remote = (r, cs), trace = tr\<rparr>, actionCount) =
           (transfer_catch (recorded node) i err
              \<lparr>remote = (rd, cs @ [GetBalance (publicKey senderKeypair),
                                    GetMinimumBalanceForRentExemption 0,
                                    SystemProgramTransfer transaction,
                                    SendTransaction transaction]),
               trace = tr @ [(Console_log, ProcessingWallet i
                               (maskAddress (toBase58 (publicKey senderKeypair)))),
                             (Console_log, WalletBalance i
                               (of_int senderBalanceLamports / LAMPORTS_PER_SOL))]\<rparr>,
            actionCount))
       \<and> (\<exists>logs r'. transfer_catch (recorded node) i err w =
               emit (Console_error, TransferErrorSeeLog i)
                 (emit (ErrorLogger_error, TransferError i (message err) logs)
                    (w\<lparr>remote := r'\<rparr>)))"
proof -
  note defs = processWallet_def parseKeypair_recorded transfer_try_def recorded_simps
      await_recorded emit_def Let_def
  have first: "processWallet config (recorded node) recipientKeypair i line
             (\<lparr>remote = (r, cs), trace = tr\<rparr>, actionCount) =
           (transfer_catch (recorded node) i err
              \<lparr>remote = (ra, cs @ [GetBalance (publicKey senderKeypair)]),
               trace = tr @ [(Console_log, ProcessingWallet i
                               (maskAddress (toBase58 (publicKey senderKeypair))))]\<rparr>,
            actionCount)"
    if "getBalance node (publicKey senderKeypair) r = (Inl err, ra)"
    using assms that by (simp add: defs)
  have second: "processWallet config (recorded node) recipientKeypair i line
             (\<lparr>remote = (r, cs), trace = tr\<rparr>, actionCount) =
           (transfer_catch (recorded node) i err
              \<lparr>remote = (rb, cs @ [GetBalance (publicKey senderKeypair),
                                    GetMinimumBalanceForRentExemption 0]),
               trace = tr @ [(Console_log, ProcessingWallet i
                               (maskAddress (toBase58 (publicKey senderKeypair))))]\<rparr>,
            actionCount)"
    if "getBalance node (publicKey senderKeypair) r = (Inr senderBalanceLamports, ra)"
      and "getMinimumBalanceForRentExemption node 0 ra = (Inl err, rb)"
    using assms that by (simp add: defs)
  have third: "processWallet config (recorded node) recipientKeypair i line
             (\<lparr>remote = (r, cs), trace = tr\<rparr>, actionCount) =
           (transfer_catch (recorded node) i err
              \<lparr>remote = (rd, cs @ [GetBalance (publicKey senderKeypair),
                                    GetMinimumBalanceForRentExemption 0,
                                    SystemProgramTransfer transaction,
                                    SendTransaction transaction]),
               trace = tr @ [(Console_log, ProcessingWallet i
                               (maskAddress (toBase58 (publicKey senderKeypair)))),
                             (Console_log, WalletBalance i
                               (of_int senderBalanceLamports / LAMPORTS_PER_SOL))]\<rparr>,
            actionCount)"
    if "getBalance node (publicKey senderKeypair) r = (Inr senderBalanceLamports, ra)"
      and "getMinimumBalanceForRentExemption node 0 ra = (Inr minimumBalance, rb)"
      and "0 < of_int senderBalanceLamports - of_int minimumBalance
                  - transactionFeeLamports config"
      and t: "transaction = \<lparr>fromPubkey = publicKey senderKeypair,
                            toPubkey = publicKey recipientKeypair,
                            lamports = of_int senderBalanceLamports - of_int minimumBalance
                                         - transactionFeeLamports config\<rparr>"
      and "systemProgramTransfer node transaction rb = (None, rc)"
      and "sendTransaction node transaction senderKeypair rc = (Inl err, rd)"
    using assms that(1-3,5,6) unfolding t by (simp add: defs)
  from first second third transfer_catch_logs [of "recorded node" i err w]
  show ?thesis by blast
qed






subsection \<open>The programs on the demonstration node\<close>

text \<open>Evaluation of the node \<open>demo\<close> and of its variants, for the runs below.\<close>

lemma demo_simps:
  "newPublicKey demo s = (if s = [] then Inl (Error ''Invalid public key input'')
                           else Inr (PublicKey s))"
  "getBalance demo pk c = (if toBase58 pk = ''poor'' then Inr 1000
                             else if toBase58 pk = ''busy'' then
                               (if c = 0 then Inl (Error ''429 Too Many Requests'')
                                else Inr 5000000000)
                             else Inr 5000000000, Suc c)"
  "getSignaturesForAddress demo pk n c = (Inr (replicate 3 ''sig''), Suc c)"
  "getMinimumBalanceForRentExemption demo n c = (Inr 890880, Suc c)"
  "systemProgramTransfer demo t c = (None, c)"
  "sendTransaction demo t k c = (Inr ''5Sig'', Suc c)"
  "confirmTransaction demo s c = (SettlesAfter 400 (Inr ()), Suc c)"
  "getTransaction demo s c = (Inr [], Suc c)"
  "timer_first_on_tie demo = True"
  by (simp_all add: demo_def)

lemma variant_simps:
  "getBalance no_reserve_node = getBalance demo"
  "getMinimumBalanceForRentExemption no_reserve_node n c = (Inl (Error ''fetch failed''), Suc c)"
  "getBalance rejecting_node = getBalance demo"
  "getMinimumBalanceForRentExemption rejecting_node = getMinimumBalanceForRentExemption demo"
  "sendTransaction rejecting_node t k c =
     (Inl (SendTransactionError ''Transaction simulation failed'' (Some ''tx1'')), Suc c)"
  "getTransaction rejecting_node = getTransaction demo"
  "systemProgramTransfer rejecting_node = systemProgramTransfer demo"
  "confirmTransaction slow_node s c = (SettlesAfter 60001 (Inr ()), Suc c)"
  "confirmTransaction silent_node s c = (NeverSettles, Suc c)"
  "parseKeypair no_reserve_node = parseKeypair demo"
  "parseKeypair rejecting_node = parseKeypair demo"
  by (simp_all add: no_reserve_node_def rejecting_node_def slow_node_def silent_node_def
      parseKeypair_def fun_eq_iff split: sum.splits)

lemma key_lines:
  "parseKeypair demo (key_line 0) = Inr (demo_keypair ''poor'' 0)"
  "parseKeypair demo (key_line 1) = Inr (demo_keypair ''busy'' 1)"
  "parseKeypair demo (key_line 2) = Inr (demo_keypair ''rich'' 2)"
  "parseKeypair demo (key_line (Suc 0)) = Inr (demo_keypair ''busy'' (Suc 0))"
  by code_simp+

lemma demo_keypair_simps:
  "publicKey (demo_keypair name b) = PublicKey name"
  by (simp add: demo_keypair_def)

lemma short_masks:
  "maskAddress ''poor'' = ''poor''" "maskAddress ''busy'' = ''busy''"
  "maskAddress ''rich'' = ''rich''"
  by (simp_all add: maskAddress_def)

lemma fees:
  "transactionFeeLamports default_config = 1000000"
  "transactionFeeLamports fractional_fee_config = 3 / 2"
  "CONFIRMATION_TIMEOUT_SECONDS default_config = 60"
  "CONFIRMATION_TIMEOUT_SECONDS fractional_fee_config = 60"
  by (simp_all add: transactionFeeLamports_def TRANSACTION_FEE_SOL_def LAMPORTS_PER_SOL_def
      CONFIRMATION_TIMEOUT_SECONDS_def default_config_def fractional_fee_config_def)

lemmas run_simps =
  processWallet_def parseKeypair_recorded key_lines variant_simps transfer_try_def
  transfer_catch_def recorded_simps demo_simps demo_keypair_simps short_masks fees
  await_recorded await_known confirmTransactionWithTimeout_def recording_def arrival_def
  settle_once_def clearTimeout_def emit_def Let_def LAMPORTS_PER_SOL_def start_def calls_def


text \<open>
  Claim C1, at a concrete input. The balance query of the wallet \<^verbatim>\<open>busy\<close> meets a rate limit
  once. Through \<open>withRetry\<close> the query returns the balance; the sweep calls the node
  once, logs a transfer error and gives the wallet up.
\<close>

theorem sweep_rate_limit_not_retried:
  "fst (withRetry (getBalance demo (PublicKey ''busy'')) 5 500 \<lparr>remote = 0, trace = []\<rparr>)
     = Inr 5000000000
   \<and> processWallet default_config (recorded demo) (demo_keypair ''rich'' 9) 1 (key_line 1)
        (start, 0) =
       (\<lparr>remote = (1, [GetBalance (PublicKey ''busy'')]),
         trace = [(Console_log, ProcessingWallet 1 ''busy''),
                  (ErrorLogger_error, TransferError 1 ''429 Too Many Requests'' []),
                  (Console_error, TransferErrorSeeLog 1)]\<rparr>, 0)"
proof -
  have "fst (withRetry (getBalance demo (PublicKey ''busy'')) 5 500 \<lparr>remote = 0, trace = []\<rparr>)
     = Inr 5000000000"
    by code_simp
  then show ?thesis by (simp add: run_simps)
qed


theorem checkWallet_short_circuit_witness:
  "checkWallet demo_scan_config (recorded demo) ''poor'' start =
     (None, \<lparr>remote = (1, [GetBalance (PublicKey ''poor'')]), trace = []\<rparr>)"
proof -
  have h: "newPublicKey demo ''poor'' = Inr (PublicKey ''poor'')"
    "withRetry (getBalance (recorded demo) (PublicKey ''poor'')) 5 500 start =
       (Inr 1000, \<lparr>remote = (1, [GetBalance (PublicKey ''poor'')]), trace = []\<rparr>)"
    "of_int 1000 < minBalanceLamports demo_scan_config"
    by (simp_all add: demo_simps withRetry_def withRetry_loop.simps [of _ 5 0] recorded_simps
        await_recorded start_def minBalanceLamports_def demo_scan_config_def)
  from checkWallet_short_circuit [OF h] show ?thesis by simp
qed



theorem confirmTransactionWithTimeout_race_witness:
  "confirmTransactionWithTimeout demo ''5Sig'' 60 0 =
     (\<lparr>settled = Some (Inr ()), timeout = Cleared\<rparr>, 1)
   \<and> confirmTransactionWithTimeout slow_node ''5Sig'' 60 0 =
     (\<lparr>settled = Some (Inl (Error ''Transaction was not confirmed in 60 seconds.'')),
       timeout = Fired\<rparr>, 1)
   \<and> confirmTransactionWithTimeout silent_node ''5Sig'' 60 0 =
     (\<lparr>settled = Some (Inl (Error ''Transaction was not confirmed in 60 seconds.'')),
       timeout = Fired\<rparr>, 1)"
proof -
  have h: "confirmTransaction demo ''5Sig'' 0 = (SettlesAfter 400 (Inr ()), 1)"
    "confirmTransaction slow_node ''5Sig'' 0 = (SettlesAfter 60001 (Inr ()), 1)"
    "confirmTransaction silent_node ''5Sig'' 0 = (NeverSettles, 1)"
    by (simp_all add: demo_simps variant_simps)
  have n: "string_of_nat 60 = ''60''" by code_simp
  from confirmTransactionWithTimeout_race [of demo "''5Sig''" 0 400 "Inr ()" 1 60]
    confirmTransactionWithTimeout_race [of slow_node "''5Sig''" 0 60001 "Inr ()" 1 60]
    confirmTransactionWithTimeout_race [of silent_node "''5Sig''" 0 0 "Inr ()" 1 60]
    h n
  show ?thesis by simp
qed


theorem sweep_first_failure_surfaces_witness:
  "processWallet default_config (recorded demo) (demo_keypair ''rich'' 9) 1 (key_line 1)
     (start, 0) =
     (transfer_catch (recorded demo) 1 (Error ''429 Too Many Requests'')
        \<lparr>remote = (1, [GetBalance (PublicKey ''busy'')]),
         trace = [(Console_log, ProcessingWallet 1 ''busy'')]\<rparr>, 0)
   \<and> processWallet default_config (recorded no_reserve_node) (demo_keypair ''rich'' 9) 1
       (key_line 2) (start, 0) =
     (transfer_catch (recorded no_reserve_node) 1 (Error ''fetch failed'')
        \<lparr>remote = (2, [GetBalance (PublicKey ''rich''), GetMinimumBalanceForRentExemption 0]),
         trace = [(Console_log, ProcessingWallet 1 ''rich'')]\<rparr>, 0)
   \<and> processWallet default_config (recorded rejecting_node) (demo_keypair ''rich'' 9) 1
       (key_line 2) (start, 0) =
     (transfer_catch (recorded rejecting_node) 1
        (SendTransactionError ''Transaction simulation failed'' (Some ''tx1''))
        \<lparr>remote = (3, [GetBalance (PublicKey ''rich''), GetMinimumBalanceForRentExemption 0,
                        SystemProgramTransfer \<lparr>fromPubkey = PublicKey ''rich'',
                          toPubkey = PublicKey ''rich'', lamports = 4998109120\<rparr>,
                        SendTransaction \<lparr>fromPubkey = PublicKey ''rich'',
                          toPubkey = PublicKey ''rich'', lamports = 4998109120\<rparr>]),
         trace = [(Console_log, ProcessingWallet 1 ''rich''),
                  (Console_log, WalletBalance 1 5)]\<rparr>, 0)"
proof -
  note facts = demo_simps variant_simps demo_keypair_simps fees
  have k1: "parseKeypair demo (key_line 1) = Inr (demo_keypair ''busy'' 1)"
    and k2: "parseKeypair no_reserve_node (key_line 2) = Inr (demo_keypair ''rich'' 2)"
    and k3: "parseKeypair rejecting_node (key_line 2) = Inr (demo_keypair ''rich'' 2)"
    by (simp_all only: key_lines variant_simps)
  have a: "getBalance demo (publicKey (demo_keypair ''busy'' 1)) 0
             = (Inl (Error ''429 Too Many Requests''), 1)"
    by (simp add: facts)
  have b: "getBalance no_reserve_node (publicKey (demo_keypair ''rich'' 2)) 0
             = (Inr 5000000000, 1)
         \<and> getMinimumBalanceForRentExemption no_reserve_node 0 1
             = (Inl (Error ''fetch failed''), 2)"
    by (simp add: facts)
  have c: "getBalance rejecting_node (publicKey (demo_keypair ''rich'' 2)) 0
             = (Inr 5000000000, 1)
         \<and> getMinimumBalanceForRentExemption rejecting_node 0 1 = (Inr 890880, 2)
         \<and> 0 < of_int 5000000000 - of_int 890880 - transactionFeeLamports default_config
         \<and> \<lparr>fromPubkey = PublicKey ''rich'', toPubkey = PublicKey ''rich'',
             lamports = 4998109120\<rparr> =
           \<lparr>fromPubkey = publicKey (demo_keypair ''rich'' 2),
            toPubkey = publicKey (demo_keypair ''rich'' 9),
            lamports = of_int 5000000000 - of_int 890880
                         - transactionFeeLamports default_config\<rparr>
         \<and> systemProgramTransfer rejecting_node
             \<lparr>fromPubkey = PublicKey ''rich'', toPubkey = PublicKey ''rich'',
               lamports = 4998109120\<rparr> 2 = (None, 2)
         \<and> sendTransaction rejecting_node
             \<lparr>fromPubkey = PublicKey ''rich'', toPubkey = PublicKey ''rich'',
               lamports = 4998109120\<rparr> (demo_keypair ''rich'' 2) 2
             = (Inl (SendTransactionError ''Transaction simulation failed'' (Some ''tx1'')), 3)"
    by (simp add: facts)
  note m = demo_keypair_simps short_masks LAMPORTS_PER_SOL_def
  have first: "processWallet default_config (recorded demo) (demo_keypair ''rich'' 9) 1 (key_line 1)
     (start, 0) =
     (transfer_catch (recorded demo) 1 (Error ''429 Too Many Requests'')
        \<lparr>remote = (1, [GetBalance (PublicKey ''busy'')]),
         trace = [(Console_log, ProcessingWallet 1 ''busy'')]\<rparr>, 0)"
    using sweep_first_failure_surfaces [OF k1, where r = 0 and ra = 1
      and err = "Error ''429 Too Many Requests''" and config = default_config
      and recipientKeypair = "demo_keypair ''rich'' 9" and i = 1 and cs = "[]" and tr = "[]"
      and actionCount = 0] a
    by (simp add: start_def m)
  have second: "processWallet default_config (recorded no_reserve_node) (demo_keypair ''rich'' 9) 1
       (key_line 2) (start, 0) =
     (transfer_catch (recorded no_reserve_node) 1 (Error ''fetch failed'')
        \<lparr>remote = (2, [GetBalance (PublicKey ''rich''), GetMinimumBalanceForRentExemption 0]),
         trace = [(Console_log, ProcessingWallet 1 ''rich'')]\<rparr>, 0)"
    using sweep_first_failure_surfaces [OF k2, where r = 0 and ra = 1 and rb = 2
      and senderBalanceLamports = 5000000000
      and err = "Error ''fetch failed''" and config = default_config
      and recipientKeypair = "demo_keypair ''rich'' 9" and i = 1 and cs = "[]" and tr = "[]"
      and actionCount = 0] b
    by (simp add: start_def m)
  have third: "processWallet default_config (recorded rejecting_node) (demo_keypair ''rich'' 9) 1
       (key_line 2) (start, 0) =
     (transfer_catch (recorded rejecting_node) 1
        (SendTransactionError ''Transaction simulation failed'' (Some ''tx1''))
        \<lparr>remote = (3, [GetBalance (PublicKey ''rich''), GetMinimumBalanceForRentExemption 0,
                        SystemProgramTransfer \<lparr>fromPubkey = PublicKey ''rich'',
                          toPubkey = PublicKey ''rich'', lamports = 4998109120\<rparr>,
                        SendTransaction \<lparr>fromPubkey = PublicKey ''rich'',
                          toPubkey = PublicKey ''rich'', lamports = 4998109120\<rparr>]),
         trace = [(Console_log, ProcessingWallet 1 ''rich''),
                  (Console_log, WalletBalance 1 5)]\<rparr>, 0)"
    using sweep_first_failure_surfaces [OF k3, where r = 0 and ra = 1 and rb = 2 and rc = 2 and rd = 3
      and senderBalanceLamports = 5000000000 and minimumBalance = 890880
      and transaction = "\<lparr>fromPubkey = PublicKey ''rich'', toPubkey = PublicKey ''rich'',
             lamports = 4998109120\<rparr>"
      and err = "SendTransactionError ''Transaction simulation failed'' (Some ''tx1'')"
      and config = default_config
      and recipientKeypair = "demo_keypair ''rich'' 9" and i = 1 and cs = "[]" and tr = "[]"
      and actionCount = 0] c
    by (simp add: start_def m)
  from first second third show ?thesis by simp
qed



end
